theory Spec2Isabelle
  imports Complex_Main
begin

section \<open>Shared constants and types\<close>

text \<open>
  A shallow embedding of the netcode core: the authoritative room
  (\<^verbatim>\<open>PlatformerRoom\<close>), the predictive scene (\<^verbatim>\<open>PlatformerScene\<close>) and the shared
  physics helpers (\<^verbatim>\<open>physicsUtils\<close>).

  JavaScript numbers that hold coordinates, velocities and forces are modelled as
  \<^typ>\<open>real\<close>, with exact arithmetic. The fixed time step and the quotient from which
  the tick offset is rounded are modelled in double precision, since there the rounding of
  the quotient decides the result. Tick counters and millisecond timestamps are integers
  in every run of the code and are modelled as \<^typ>\<open>int\<close>; a message whose tick is
  missing or is not a number is outside the model.
\<close>

subsection \<open>Double precision\<close>

text \<open>
  \<open>to_double\<close> rounds a real number to the nearest number with a significand of 53 bits,
  a tie going to the even significand, as every arithmetic operation on doubles does.
  \<open>binade v\<close> is the exponent of the power of two at or below \<open>\<bar>v\<bar>\<close>. Overflow and
  subnormal numbers are outside the model.
\<close>

definition round_half_even :: "real \<Rightarrow> int" where
  "round_half_even v =
     (let f = \<lfloor>v\<rfloor>
      in if v - of_int f < 1 / 2 then f
         else if 1 / 2 < v - of_int f then f + 1
         else if even f then f else f + 1)"

definition binade :: "real \<Rightarrow> int" where
  "binade v = \<lfloor>log 2 \<bar>v\<bar>\<rfloor>"

definition to_double :: "real \<Rightarrow> real" where
  "to_double v =
     (if v = 0 then 0
      else of_int (round_half_even (v * 2 powr (52 - of_int (binade v)))) *
           2 powr (of_int (binade v) - 52))"

subsection \<open>Constants\<close>

definition PLAYER_SPEED :: real where "PLAYER_SPEED = 5"
definition JUMP_FORCE :: real where "JUMP_FORCE = 15 / 100"
definition PLAYER_SIZE :: real where "PLAYER_SIZE = 32"
definition SPAWN_X :: real where "SPAWN_X = 50"
definition SPAWN_Y :: real where "SPAWN_Y = 500"
definition GROUND_Y :: real where "GROUND_Y = 590"
definition GROUND_THRESHOLD :: real where "GROUND_THRESHOLD = 2"
definition MAP_WIDTH :: real where "MAP_WIDTH = 800"
definition FIXED_TIME_STEP :: real where "FIXED_TIME_STEP = to_double (1000 / 60)"

text \<open>\<^verbatim>\<open>InputData\<close> of the shared types: one input command.\<close>

record InputData =
  left :: bool
  right :: bool
  jump :: bool
  tick :: int

subsection \<open>The physics engine, as the code sees it\<close>

text \<open>
  A \<^verbatim>\<open>Matter.Body\<close> is an object of the physics library. The record \<open>Body\<close> keeps the
  fields the code reads or writes on a player's body, \<open>StaticBody\<close> the fields it reads on
  the ground and the platforms. \<open>body_id\<close> and \<open>static_id\<close> stand for the identity of the
  object, which the code compares with \<^verbatim>\<open>===\<close>.
\<close>

record Body =
  body_id :: nat
  position_x :: real
  position_y :: real
  velocity_x :: real
  velocity_y :: real
  force_x :: real
  force_y :: real

record StaticBody =
  static_id :: nat
  static_position_x :: real
  static_position_y :: real
  bounds_min_x :: real
  bounds_min_y :: real
  bounds_max_x :: real
  bounds_max_y :: real

text \<open>The collision record that a query of the library returns: the two bodies, by identity.\<close>

record Collision =
  bodyA :: nat
  bodyB :: nat

text \<open>
  The library itself is not part of the repository. Its three entry points that the step
  logic calls are parameters of the model:
  \<^item> \<open>Collision_collides\<close> is \<^verbatim>\<open>Matter.Collision.collides(body, groundBody)\<close>, \<open>None\<close> for
    \<^verbatim>\<open>null\<close>;
  \<^item> \<open>Query_ray\<close> is \<^verbatim>\<open>Matter.Query.ray(bodies, start, end)\<close>;
  \<^item> \<open>Engine_update\<close> is \<^verbatim>\<open>Matter.Engine.update(engine, delta)\<close>: from the time step and
    the bodies of the world before the update, the state of one of these bodies after it.
\<close>

record Matter =
  Collision_collides :: "Body \<Rightarrow> StaticBody \<Rightarrow> Collision option"
  Query_ray :: "StaticBody list \<Rightarrow> real \<times> real \<Rightarrow> real \<times> real \<Rightarrow> Collision list"
  Engine_update :: "real \<Rightarrow> (string \<Rightarrow> Body option) \<Rightarrow> Body \<Rightarrow> Body"

text \<open>\<^verbatim>\<open>Matter.Body.setVelocity\<close> and \<^verbatim>\<open>Matter.Body.applyForce\<close> at the body's own position.\<close>

definition Body_setVelocity :: "Body \<Rightarrow> real \<times> real \<Rightarrow> Body" where
  "Body_setVelocity b v = b\<lparr>velocity_x := fst v, velocity_y := snd v\<rparr>"

definition Body_setPosition :: "Body \<Rightarrow> real \<times> real \<Rightarrow> Body" where
  "Body_setPosition b p = b\<lparr>position_x := fst p, position_y := snd p\<rparr>"

definition Body_applyForce :: "Body \<Rightarrow> real \<times> real \<Rightarrow> Body" where
  "Body_applyForce b f = b\<lparr>force_x := force_x b + fst f, force_y := force_y b + snd f\<rparr>"

text \<open>\<^verbatim>\<open>Matter.Bodies.rectangle(x, y, width, height, {isStatic: true})\<close>.\<close>

definition Bodies_rectangle_static :: "nat \<Rightarrow> real \<Rightarrow> real \<Rightarrow> real \<Rightarrow> real \<Rightarrow> StaticBody" where
  "Bodies_rectangle_static i cx cy w h =
     \<lparr>static_id = i, static_position_x = cx, static_position_y = cy,
      bounds_min_x = cx - w / 2, bounds_min_y = cy - h / 2,
      bounds_max_x = cx + w / 2, bounds_max_y = cy + h / 2\<rparr>"

section \<open>Shared physics helpers (physicsUtils)\<close>

text \<open>The test of one surface inside the loop of \<^verbatim>\<open>isGrounded\<close>.\<close>

definition onTopOf :: "Matter \<Rightarrow> Body \<Rightarrow> StaticBody \<Rightarrow> bool" where
  "onTopOf M body groundBody =
     (case Collision_collides M body groundBody of
        None \<Rightarrow> False
      | Some collides \<Rightarrow>
          bodyB collides = static_id groundBody \<and>
          (let playerBottom = position_y body + PLAYER_SIZE / 2;
               groundTop = static_position_y groundBody
                             - (bounds_max_y groundBody - bounds_min_y groundBody) / 2
           in playerBottom \<le> groundTop + GROUND_THRESHOLD))"

text \<open>The \<^verbatim>\<open>for\<close> loop of \<^verbatim>\<open>isGrounded\<close>, which returns at the first surface found.\<close>

fun surfaceBelow :: "Matter \<Rightarrow> Body \<Rightarrow> StaticBody list \<Rightarrow> bool" where
  "surfaceBelow M body [] = False"
| "surfaceBelow M body (groundBody # rest) =
     (if onTopOf M body groundBody then True else surfaceBelow M body rest)"

definition isGrounded :: "Matter \<Rightarrow> Body \<Rightarrow> StaticBody list \<Rightarrow> bool" where
  "isGrounded M body groundBodies =
     (if surfaceBelow M body groundBodies then True
      else let rayStart = (position_x body, position_y body);
               rayEnd = (position_x body, position_y body + PLAYER_SIZE / 2 + 2);
               rayCollisions = Query_ray M groundBodies rayStart rayEnd
           in if length rayCollisions > 0 then True
              else \<bar>velocity_y body\<bar> < 1 / 10)"

definition applyJump :: "Body \<Rightarrow> real \<Rightarrow> Body" where
  "applyJump body jumpForce = Body_applyForce body (0, - jumpForce)"

definition createPlayerBody :: "nat \<Rightarrow> real \<Rightarrow> real \<Rightarrow> Body" where
  "createPlayerBody i px py =
     \<lparr>body_id = i, position_x = px, position_y = py, velocity_x = 0, velocity_y = 0,
      force_x = 0, force_y = 0\<rparr>"

section \<open>The authoritative room (PlatformerRoom)\<close>

text \<open>
  \<^verbatim>\<open>Player\<close>: the replicated fields, the input queue and the physics body. The room keeps
  the body a second time in \<^verbatim>\<open>playerBodies[sessionId]\<close>; \<^verbatim>\<open>onJoin\<close> stores the same object
  in both places and \<^verbatim>\<open>onLeave\<close> removes both, so the model keeps it once, in the player.
\<close>

record Player =
  player_x :: real
  player_y :: real
  player_vx :: real
  player_vy :: real
  player_tick :: int
  player_isGrounded :: bool
  lastProcessedTick :: int
  inputQueue :: "InputData list"
  player_body :: Body

record PlatformerRoom =
  players :: "string \<Rightarrow> Player option"
  currentTick :: int
  ground :: StaticBody
  platforms :: "StaticBody list"

text \<open>The handler of message type 0: an input command of the client \<open>sessionId\<close>.\<close>

definition onMessage_input :: "string \<Rightarrow> InputData \<Rightarrow> PlatformerRoom \<Rightarrow> PlatformerRoom" where
  "onMessage_input sessionId input room =
     (case players room sessionId of
        None \<Rightarrow> room
      | Some player \<Rightarrow>
          room\<lparr>players := (players room)
                 (sessionId \<mapsto> player\<lparr>inputQueue := inputQueue player @ [input]\<rparr>)\<rparr>)"

text \<open>The body of the \<^verbatim>\<open>while\<close> loop of \<^verbatim>\<open>fixedTick\<close>, on the body of the player.\<close>

definition server_applyInput :: "bool \<Rightarrow> Body \<Rightarrow> InputData \<Rightarrow> Body" where
  "server_applyInput grounded body input =
     (let velocityX = (if left input then - PLAYER_SPEED
                       else if right input then PLAYER_SPEED else 0);
          body1 = Body_setVelocity body (velocityX, velocity_y body)
      in if jump input \<and> grounded then applyJump body1 JUMP_FORCE else body1)"

text \<open>
  The \<^verbatim>\<open>while\<close> loop: as long as the head of the (sorted) queue is due, shift it, apply it
  and record its tick. The result is the body and \<open>lastProcessedTick\<close>, the queue that
  remains, and the commands that were shifted, in the order of their application.
\<close>

fun drainQueue ::
  "int \<Rightarrow> bool \<Rightarrow> Body \<times> int \<Rightarrow> InputData list \<Rightarrow> (Body \<times> int) \<times> InputData list \<times> InputData list"
where
  "drainQueue now grounded (body, lpt) [] = ((body, lpt), [], [])"
| "drainQueue now grounded (body, lpt) (input # queue) =
     (if tick input \<le> now
      then (case drainQueue now grounded (server_applyInput grounded body input, tick input) queue of
              (st, remaining, applied) \<Rightarrow> (st, remaining, input # applied))
      else ((body, lpt), input # queue, []))"

text \<open>
  The first \<^verbatim>\<open>forEach\<close> of \<^verbatim>\<open>fixedTick\<close> on one player: the grounded flag, the sort of the
  queue (\<^verbatim>\<open>Array.prototype.sort\<close> is stable), the loop, and the clean-up of a long queue.
  The second component is the list of the commands applied.
\<close>

definition processPlayer ::
  "Matter \<Rightarrow> StaticBody list \<Rightarrow> int \<Rightarrow> Player \<Rightarrow> Player \<times> InputData list" where
  "processPlayer M groundBodies now player =
     (let grounded = isGrounded M (player_body player) groundBodies;
          sorted_queue = sort_key tick (inputQueue player)
      in case drainQueue now grounded (player_body player, lastProcessedTick player) sorted_queue of
           ((body, lpt), remaining, applied) \<Rightarrow>
             (player\<lparr>player_isGrounded := grounded, player_body := body,
                     lastProcessedTick := lpt,
                     inputQueue := (if length remaining > 20
                                    then filter (\<lambda>input. tick input > now - 10) remaining
                                    else remaining)\<rparr>,
              applied))"

text \<open>
  The queue of a player when the loop has ended and the clean-up has not begun: the list
  whose length the step compares with 20.
\<close>

definition queue_after_drain ::
  "Matter \<Rightarrow> StaticBody list \<Rightarrow> int \<Rightarrow> Player \<Rightarrow> InputData list" where
  "queue_after_drain M groundBodies now player =
     fst (snd (drainQueue now (isGrounded M (player_body player) groundBodies)
                 (player_body player, lastProcessedTick player)
                 (sort_key tick (inputQueue player))))"

text \<open>The second \<^verbatim>\<open>forEach\<close>: the state of the body is written back to the schema.\<close>

definition writeBack :: "int \<Rightarrow> Body \<Rightarrow> Player \<Rightarrow> Player" where
  "writeBack now body player =
     player\<lparr>player_body := body, player_x := position_x body, player_y := position_y body,
            player_vx := velocity_x body, player_vy := velocity_y body, player_tick := now\<rparr>"

definition fixedTick :: "Matter \<Rightarrow> real \<Rightarrow> PlatformerRoom \<Rightarrow> PlatformerRoom" where
  "fixedTick M timeStep room =
     (let now = currentTick room + 1;
          groundBodies = ground room # platforms room;
          processed = (\<lambda>sessionId.
             map_option (\<lambda>player. fst (processPlayer M groundBodies now player))
               (players room sessionId));
          world = (\<lambda>sessionId. map_option player_body (processed sessionId))
      in room\<lparr>currentTick := now,
              players := (\<lambda>sessionId.
                 map_option (\<lambda>player.
                     writeBack now (Engine_update M timeStep world (player_body player)) player)
                   (processed sessionId))\<rparr>)"

definition onJoin :: "string \<Rightarrow> nat \<Rightarrow> PlatformerRoom \<Rightarrow> PlatformerRoom" where
  "onJoin sessionId i room =
     room\<lparr>players := (players room)
            (sessionId \<mapsto>
               \<lparr>player_x = SPAWN_X, player_y = SPAWN_Y, player_vx = 0, player_vy = 0,
                player_tick = currentTick room, player_isGrounded = False,
                lastProcessedTick = 0, inputQueue = [],
                player_body = createPlayerBody i SPAWN_X SPAWN_Y\<rparr>)\<rparr>"

definition onLeave :: "string \<Rightarrow> PlatformerRoom \<Rightarrow> PlatformerRoom" where
  "onLeave sessionId room = room\<lparr>players := (players room)(sessionId := None)\<rparr>"

text \<open>What happens to a room: an input message arrives, or the simulation interval fires.\<close>

datatype event = Input_message string InputData | Fixed_tick

fun room_event :: "Matter \<Rightarrow> PlatformerRoom \<Rightarrow> event \<Rightarrow> PlatformerRoom" where
  "room_event M room (Input_message sessionId input) = onMessage_input sessionId input room"
| "room_event M room Fixed_tick = fixedTick M FIXED_TIME_STEP room"

definition room_run :: "Matter \<Rightarrow> PlatformerRoom \<Rightarrow> event list \<Rightarrow> PlatformerRoom" where
  "room_run M room events = foldl (room_event M) room events"

section \<open>The predictive scene (PlatformerScene)\<close>

text \<open>
  The fields of the scene that the step logic, the reconciliation and the round-trip
  estimate use. \<open>currentPlayer\<close> is \<open>None\<close> until the server has announced the local
  player; the position of the sprite is the position of its body. \<open>room_connected\<close> says
  whether \<^verbatim>\<open>this.room\<close> is set.
\<close>

record PlatformerScene =
  currentPlayer :: "Body option"
  inputPayload :: InputData
  inputBuffer :: "InputData list"
  scene_currentTick :: int
  lastReconciledTick :: int
  rtt :: int
  serverTickOffset :: int
  lastPingTime :: int
  scene_groundBodies :: "StaticBody list"
  room_connected :: bool

text \<open>\<^verbatim>\<open>Math.round\<close>: the nearest integer, a half rounded up.\<close>

definition Math_round :: "real \<Rightarrow> int" where
  "Math_round v = \<lfloor>v + 1 / 2\<rfloor>"

text \<open>
  \<^verbatim>\<open>setupRTTCalculation\<close>: the timer that sends a ping and the handler of the pong.
  \<open>clock\<close> is the value of \<^verbatim>\<open>Date.now()\<close> when the callback runs. The product and the
  quotient of \<^verbatim>\<open>this.rtt / (2 * FIXED_TIME_STEP)\<close> are operations on doubles.
\<close>

definition sendPing :: "int \<Rightarrow> PlatformerScene \<Rightarrow> PlatformerScene" where
  "sendPing clock scene = scene\<lparr>lastPingTime := clock\<rparr>"

definition onMessage_pong :: "int \<Rightarrow> PlatformerScene \<Rightarrow> PlatformerScene" where
  "onMessage_pong clock scene =
     (let endTime = clock;
          roundTrip = endTime - lastPingTime scene
      in scene\<lparr>rtt := roundTrip,
               serverTickOffset :=
                 Math_round (to_double (real_of_int roundTrip / to_double (2 * FIXED_TIME_STEP)))\<rparr>)"

definition isPlayerGrounded :: "Matter \<Rightarrow> PlatformerScene \<Rightarrow> bool" where
  "isPlayerGrounded M scene =
     (case currentPlayer scene of
        None \<Rightarrow> False
      | Some body \<Rightarrow>
          if length (scene_groundBodies scene) = 0 then False
          else let rayLength = PLAYER_SIZE / 2 + 2;
                   startPoint = (position_x body, position_y body);
                   endPoint = (position_x body, position_y body + rayLength);
                   collisions = Query_ray M (scene_groundBodies scene) startPoint endPoint
               in length collisions > 0 \<or> \<bar>velocity_y body\<bar> < 1 / 10)"

definition applyInput :: "Matter \<Rightarrow> InputData \<Rightarrow> PlatformerScene \<Rightarrow> PlatformerScene" where
  "applyInput M input scene =
     (case currentPlayer scene of
        None \<Rightarrow> scene
      | Some body \<Rightarrow>
          let grounded = isPlayerGrounded M scene;
              velocityX = (if left input then - PLAYER_SPEED
                           else if right input then PLAYER_SPEED else 0);
              body1 = Body_setVelocity body (velocityX, velocity_y body);
              body2 = (if jump input \<and> grounded then applyJump body1 JUMP_FORCE else body1)
          in scene\<lparr>currentPlayer := Some body2\<rparr>)"

text \<open>
  The fixed step of the scene. The keys that are down are an argument; the result is the
  scene and the message sent to the room, if any.
\<close>

definition scene_fixedTick ::
  "Matter \<Rightarrow> bool \<times> bool \<times> bool \<Rightarrow> PlatformerScene \<Rightarrow> PlatformerScene \<times> InputData option" where
  "scene_fixedTick M keys scene =
     (let now = scene_currentTick scene + 1;
          adjustedTick = now + serverTickOffset scene;
          payload = \<lparr>left = fst keys, right = fst (snd keys), jump = snd (snd keys),
                     tick = adjustedTick\<rparr>;
          scene1 = scene\<lparr>scene_currentTick := now, inputPayload := payload,
                         inputBuffer := inputBuffer scene @ [payload]\<rparr>;
          sent = (if room_connected scene then Some payload else None);
          scene2 = applyInput M payload scene1
      in (if length (inputBuffer scene2) > 100
          then scene2\<lparr>inputBuffer :=
                 filter (\<lambda>input. tick input > adjustedTick - 50) (inputBuffer scene2)\<rparr>
          else scene2,
          sent))"

text \<open>\<^verbatim>\<open>Phaser.Math.Distance.Between\<close> and \<^verbatim>\<open>Phaser.Math.Linear\<close>.\<close>

definition Distance_Between :: "real \<Rightarrow> real \<Rightarrow> real \<Rightarrow> real \<Rightarrow> real" where
  "Distance_Between x1 y1 x2 y2 = sqrt ((x1 - x2) * (x1 - x2) + (y1 - y2) * (y1 - y2))"

definition Linear :: "real \<Rightarrow> real \<Rightarrow> real \<Rightarrow> real" where
  "Linear p0 p1 t = (p1 - p0) * t + p0"

definition reconcileWithServer :: "Matter \<Rightarrow> Player \<Rightarrow> PlatformerScene \<Rightarrow> PlatformerScene" where
  "reconcileWithServer M serverPlayer scene =
     (case currentPlayer scene of
        None \<Rightarrow> scene
      | Some body \<Rightarrow>
          let distance = Distance_Between (position_x body) (position_y body)
                           (player_x serverPlayer) (player_y serverPlayer);
              lerpFactor = (if distance > 30 then 1 / 2 else 1 / 5);
              body1 = Body_setPosition body
                        (Linear (position_x body) (player_x serverPlayer) lerpFactor,
                         Linear (position_y body) (player_y serverPlayer) lerpFactor);
              body2 = Body_setVelocity body1
                        (Linear (velocity_x body1) (player_vx serverPlayer) lerpFactor,
                         Linear (velocity_y body1) (player_vy serverPlayer) lerpFactor);
              pending = filter (\<lambda>input. tick input > lastProcessedTick serverPlayer)
                          (inputBuffer scene);
              scene1 = scene\<lparr>currentPlayer := Some body2, inputBuffer := pending\<rparr>;
              scene2 = foldl (\<lambda>sc input. applyInput M input sc) scene1 pending
          in scene2\<lparr>lastReconciledTick := lastProcessedTick serverPlayer\<rparr>)"

text \<open>The \<^verbatim>\<open>onChange\<close> callback of the local player: the gate in front of the reconciliation.\<close>

definition onChange :: "Matter \<Rightarrow> Player \<Rightarrow> PlatformerScene \<Rightarrow> PlatformerScene" where
  "onChange M serverPlayer scene =
     (if lastProcessedTick serverPlayer > lastReconciledTick scene
      then reconcileWithServer M serverPlayer scene else scene)"

text \<open>The distance between the predicted position and the position the server reports.\<close>

definition divergence :: "Player \<Rightarrow> PlatformerScene \<Rightarrow> real option" where
  "divergence serverPlayer scene =
     map_option (\<lambda>body. Distance_Between (position_x body) (position_y body)
                           (player_x serverPlayer) (player_y serverPlayer))
       (currentPlayer scene)"

section \<open>The level and two physics worlds to evaluate on\<close>

text \<open>\<^verbatim>\<open>LEVEL_CONFIG\<close>: the ground and the two platforms, as static bodies.\<close>

definition level_ground :: StaticBody where
  "level_ground = Bodies_rectangle_static 1 (MAP_WIDTH / 2) GROUND_Y MAP_WIDTH 20"

definition level_platforms :: "StaticBody list" where
  "level_platforms =
     [Bodies_rectangle_static 2 200 400 200 20, Bodies_rectangle_static 3 500 300 200 20]"

text \<open>A world that reports no contact at all, and leaves every body where it is.\<close>

definition Matter_void :: Matter where
  "Matter_void =
     \<lparr>Collision_collides = (\<lambda>body groundBody. None),
      Query_ray = (\<lambda>bodies rayStart rayEnd. []),
      Engine_update = (\<lambda>timeStep world body. body)\<rparr>"




section \<open>Runs and scenarios\<close>

text \<open>A command sequence of one client arrives, message by message.\<close>

definition enqueue_all :: "string \<Rightarrow> InputData list \<Rightarrow> PlatformerRoom \<Rightarrow> PlatformerRoom" where
  "enqueue_all sessionId commands room =
     foldl (\<lambda>r input. onMessage_input sessionId input r) room commands"

text \<open>A command sequence of one client arrives, then the fixed step runs.\<close>

definition step_with_commands ::
  "Matter \<Rightarrow> string \<Rightarrow> InputData list \<Rightarrow> PlatformerRoom \<Rightarrow> PlatformerRoom" where
  "step_with_commands M sessionId commands room =
     fixedTick M FIXED_TIME_STEP (enqueue_all sessionId commands room)"

text \<open>The queue of a session; empty when the session has no player.\<close>

definition queue_of :: "PlatformerRoom \<Rightarrow> string \<Rightarrow> InputData list" where
  "queue_of room sessionId =
     (case players room sessionId of None \<Rightarrow> [] | Some player \<Rightarrow> inputQueue player)"

definition command :: "bool \<Rightarrow> bool \<Rightarrow> bool \<Rightarrow> int \<Rightarrow> InputData" where
  "command l r j t = \<lparr>left = l, right = r, jump = j, tick = t\<rparr>"

text \<open>A room at tick 8 that the client \<open>''a''\<close> has joined.\<close>

definition example_room :: PlatformerRoom where
  "example_room =
     onJoin ''a'' 7
       \<lparr>players = (\<lambda>sessionId. None), currentTick = 8,
        ground = level_ground, platforms = level_platforms\<rparr>"

text \<open>
  Four commands with the ticks 5, 2, 9 and 2; the two commands of tick 2 differ in their
  flags.
\<close>

definition ticks_5_2_9_2 :: "InputData list" where
  "ticks_5_2_9_2 =
     [command False False False 5, command True False False 2,
      command False False False 9, command False True False 2]"

text \<open>
  A scene at tick 100 whose buffer holds the hundred commands of the ticks 1 to 100, and
  whose last ping left at the clock value 10000.
\<close>

definition full_scene :: PlatformerScene where
  "full_scene =
     \<lparr>currentPlayer = Some (createPlayerBody 7 SPAWN_X SPAWN_Y),
      inputPayload = command False False False 100,
      inputBuffer = map (command False False False) [1..100],
      scene_currentTick = 100, lastReconciledTick = 0, rtt = 0, serverTickOffset = 0,
      lastPingTime = 10000, scene_groundBodies = level_ground # level_platforms,
      room_connected = True\<rparr>"

text \<open>The room of the example after 25 commands of the ticks 10 to 34 have arrived.\<close>

definition early_commands :: "InputData list" where
  "early_commands = map (command False False False) [10..34]"

definition waiting_room :: PlatformerRoom where
  "waiting_room = enqueue_all ''a'' early_commands example_room"

text \<open>
  The watermark of a session is behind its queue when no queued command has a tick below
  \<open>lastProcessedTick\<close>. In a run without late input, every command of the session arrives
  with a tick that is not below the watermark of that moment.
\<close>

definition queue_ahead :: "PlatformerRoom \<Rightarrow> string \<Rightarrow> bool" where
  "queue_ahead room sessionId =
     (case players room sessionId of
        None \<Rightarrow> True
      | Some player \<Rightarrow> list_all (\<lambda>input. lastProcessedTick player \<le> tick input) (inputQueue player))"

fun no_late_input :: "Matter \<Rightarrow> string \<Rightarrow> PlatformerRoom \<Rightarrow> event list \<Rightarrow> bool" where
  "no_late_input M sessionId room [] = True"
| "no_late_input M sessionId room (Input_message s input # events) =
     ((if s = sessionId
       then (case players room sessionId of
               None \<Rightarrow> True
             | Some player \<Rightarrow> lastProcessedTick player \<le> tick input)
       else True) \<and>
      no_late_input M sessionId (onMessage_input s input room) events)"
| "no_late_input M sessionId room (Fixed_tick # events) =
     no_late_input M sessionId (fixedTick M FIXED_TIME_STEP room) events"

text \<open>The two input messages of the client \<open>''a''\<close> used below, and the one that comes late.\<close>

definition message_5 :: event where
  "message_5 = Input_message ''a'' (command False True False 5)"

definition message_9 :: event where
  "message_9 = Input_message ''a'' (command False False False 9)"

definition message_2 :: event where
  "message_2 = Input_message ''a'' (command True False False 2)"

text \<open>The room of the example after the command of tick 5 has arrived and a step has run.\<close>

definition after_5 :: PlatformerRoom where
  "after_5 = room_run Matter_void example_room [message_5, Fixed_tick]"

text \<open>
  A scene whose predicted position, the spawn point, is 40 units away from the position
  that the server reports, and whose buffered commands the server has all processed. The
  later report of the server has the same position and a higher watermark.
\<close>

definition predicted_scene :: PlatformerScene where
  "predicted_scene =
     \<lparr>currentPlayer = Some (createPlayerBody 7 SPAWN_X SPAWN_Y),
      inputPayload = command False True False 4,
      inputBuffer = [command False True False 3, command False True False 4],
      scene_currentTick = 4, lastReconciledTick = 2, rtt = 0, serverTickOffset = 0,
      lastPingTime = 0, scene_groundBodies = level_ground # level_platforms,
      room_connected = True\<rparr>"

definition authoritative_player :: Player where
  "authoritative_player =
     \<lparr>player_x = 74, player_y = 532, player_vx = 0, player_vy = 0, player_tick = 9,
      player_isGrounded = False, lastProcessedTick = 4, inputQueue = [],
      player_body = createPlayerBody 7 74 532\<rparr>"

definition later_player :: Player where
  "later_player = authoritative_player\<lparr>lastProcessedTick := 6, player_tick := 11\<rparr>"





text \<open>
  The room of the example with other values in the replicated fields of its player: the
  values that the last step wrote, which the next step overwrites.
\<close>

definition stale_room :: PlatformerRoom where
  "stale_room =
     example_room\<lparr>players := (players example_room)
       (''a'' \<mapsto>
          \<lparr>player_x = 0, player_y = 0, player_vx = 1, player_vy = 1, player_tick = 3,
           player_isGrounded = True, lastProcessedTick = 0, inputQueue = [],
           player_body = createPlayerBody 7 SPAWN_X SPAWN_Y\<rparr>)\<rparr>"

section \<open>The input queue of the room\<close>

text \<open>
  The loop of \<open>drainQueue\<close> takes the longest prefix of due commands; on a queue sorted by
  tick these are all the due commands.
\<close>

lemma drainQueue_eq:
  "drainQueue now g (b, l) q =
     ((foldl (server_applyInput g) b (takeWhile (\<lambda>i. tick i \<le> now) q),
       last (l # map tick (takeWhile (\<lambda>i. tick i \<le> now) q))),
      dropWhile (\<lambda>i. tick i \<le> now) q,
      takeWhile (\<lambda>i. tick i \<le> now) q)"
  by (induction q arbitrary: b l) auto

lemma takeWhile_sorted_tick:
  "sorted (map tick q) \<Longrightarrow>
     takeWhile (\<lambda>i. tick i \<le> now) q = filter (\<lambda>i. tick i \<le> now) q"
  by (induction q) (auto intro!: filter_False[symmetric] simp: not_le)

lemma dropWhile_sorted_tick:
  "sorted (map tick q) \<Longrightarrow>
     dropWhile (\<lambda>i. tick i \<le> now) q = filter (\<lambda>i. now < tick i) q"
  by (induction q) (auto intro!: filter_True[symmetric] simp: not_le)

lemma processPlayer_applied:
  "snd (processPlayer M gbs now p) =
     sort_key tick (filter (\<lambda>i. tick i \<le> now) (inputQueue p))"
  by (simp add: processPlayer_def Let_def drainQueue_eq takeWhile_sorted_tick filter_sort)

lemma processPlayer_queue:
  "inputQueue (fst (processPlayer M gbs now p)) =
     (let remaining = sort_key tick (filter (\<lambda>i. now < tick i) (inputQueue p))
      in if length remaining > 20 then filter (\<lambda>i. tick i > now - 10) remaining
         else remaining)"
  by (simp add: processPlayer_def Let_def drainQueue_eq dropWhile_sorted_tick filter_sort)

lemma processPlayer_queue_due:
  "i \<in> set (inputQueue (fst (processPlayer M gbs now p))) \<Longrightarrow> now < tick i"
  by (auto simp add: processPlayer_queue Let_def split: if_splits)

lemma processPlayer_lpt:
  "lastProcessedTick (fst (processPlayer M gbs now p)) =
     last (lastProcessedTick p #
           map tick (sort_key tick (filter (\<lambda>i. tick i \<le> now) (inputQueue p))))"
  by (simp add: processPlayer_def Let_def drainQueue_eq takeWhile_sorted_tick filter_sort)

lemma fixedTick_currentTick: "currentTick (fixedTick M dt room) = currentTick room + 1"
  by (simp add: fixedTick_def Let_def)

section \<open>Horizontal velocity\<close>

text \<open>
  C6, as the code has it. On the server and on the client the velocity is \<open>- PLAYER_SPEED\<close>
  when \<open>left\<close> is set (whether or not \<open>right\<close> is set too), \<open>PLAYER_SPEED\<close> when only \<open>right\<close>
  is set, and zero when neither is set.
\<close>

theorem horizontal_velocity_left_wins:
  "velocity_x (server_applyInput g b (command True False j t)) = - PLAYER_SPEED \<and>
   velocity_x (server_applyInput g b (command False True j t)) = PLAYER_SPEED \<and>
   velocity_x (server_applyInput g b (command False False j t)) = 0 \<and>
   velocity_x (server_applyInput g b (command True True j t)) = - PLAYER_SPEED \<and>
   map_option velocity_x
     (currentPlayer (applyInput M (command True False j t) (scene\<lparr>currentPlayer := Some b\<rparr>))) =
     Some (- PLAYER_SPEED) \<and>
   map_option velocity_x
     (currentPlayer (applyInput M (command False True j t) (scene\<lparr>currentPlayer := Some b\<rparr>))) =
     Some PLAYER_SPEED \<and>
   map_option velocity_x
     (currentPlayer (applyInput M (command False False j t) (scene\<lparr>currentPlayer := Some b\<rparr>))) =
     Some 0 \<and>
   map_option velocity_x
     (currentPlayer (applyInput M (command True True j t) (scene\<lparr>currentPlayer := Some b\<rparr>))) =
     Some (- PLAYER_SPEED)"
  by (simp add: command_def server_applyInput_def applyInput_def Body_setVelocity_def
      applyJump_def Body_applyForce_def Let_def)

text \<open>
  The claim as stated asks for zero when both flags are set. With both set, the body that
  stood still at the spawn point moves left at full speed.
\<close>

theorem horizontal_velocity_both_counterexample:
  "velocity_x (server_applyInput False (createPlayerBody 7 SPAWN_X SPAWN_Y)
       (command True True False 1)) = - 5 \<and>
   velocity_x (server_applyInput False (createPlayerBody 7 SPAWN_X SPAWN_Y)
       (command True True False 1)) \<noteq> 0"
  by (simp add: command_def server_applyInput_def Body_setVelocity_def createPlayerBody_def
      PLAYER_SPEED_def Let_def)

section \<open>The tick offset\<close>

text \<open>
  Rounding to a double moves a number by at most the fraction \<open>1 / 2 ^ 53\<close> of its size. The
  fixed time step \<^verbatim>\<open>1000 / 60\<close> and its double are doubles with the significand
  4691249611844267.
\<close>

lemma round_half_even_near: "\<bar>of_int (round_half_even v) - v\<bar> \<le> 1 / 2"
  unfolding round_half_even_def Let_def by (auto simp: abs_le_iff)

lemma binade_eqI:
  "2 powr of_int k \<le> \<bar>v\<bar> \<Longrightarrow> \<bar>v\<bar> < 2 powr of_int (k + 1) \<Longrightarrow> binade v = k"
proof -
  assume a: "2 powr of_int k \<le> \<bar>v\<bar>" and b: "\<bar>v\<bar> < 2 powr of_int (k + 1)"
  have "0 < (2::real) powr of_int k" by simp
  with a have pos: "0 < \<bar>v\<bar>" by linarith
  show ?thesis unfolding binade_def
    using floor_log_eq_powr_iff [of "\<bar>v\<bar>" 2 k] pos a b by simp
qed

lemma binade_lower: "v \<noteq> 0 \<Longrightarrow> 2 powr of_int (binade v) \<le> \<bar>v\<bar>"
proof -
  assume "v \<noteq> 0"
  then have pos: "0 < \<bar>v\<bar>" by simp
  from floor_log_eq_powr_iff [of "\<bar>v\<bar>" 2 "binade v"] pos show ?thesis
    by (simp add: binade_def)
qed

lemma to_double_error: "\<bar>to_double v - v\<bar> \<le> \<bar>v\<bar> / 2 ^ 53"
proof (cases "v = 0")
  case True
  then show ?thesis by (simp add: to_double_def)
next
  case False
  let ?k = "real_of_int (binade v)"
  let ?s = "(2::real) powr (52 - ?k)"
  let ?n = "round_half_even (v * ?s)"
  have s: "0 < ?s" by simp
  have "(2::real) powr (?k - 52) = 2 powr (- (52 - ?k))" by simp
  also have "\<dots> = 1 / ?s" by (simp only: powr_minus inverse_eq_divide)
  finally have inv: "(2::real) powr (?k - 52) = 1 / ?s" .
  have td: "to_double v = of_int ?n / ?s"
    using False by (simp only: to_double_def inv if_False) simp
  have "to_double v - v = (of_int ?n - v * ?s) / ?s"
    using s by (simp add: td field_simps)
  then have "\<bar>to_double v - v\<bar> = \<bar>of_int ?n - v * ?s\<bar> / ?s"
    using s by (simp add: abs_divide del: of_int_diff)
  also have "\<dots> \<le> (1 / 2) / ?s"
    by (rule divide_right_mono [OF round_half_even_near]) simp
  also have "(1 / 2) / ?s = 2 powr ?k / 2 ^ 53"
    by (simp add: powr_diff field_simps)
  also have "\<dots> \<le> \<bar>v\<bar> / 2 ^ 53"
    using binade_lower [OF False] by (simp add: divide_right_mono)
  finally show ?thesis .
qed

lemma to_double_at:
  "binade v = k \<Longrightarrow> v \<noteq> 0 \<Longrightarrow>
     to_double v = of_int (round_half_even (v * 2 powr (52 - of_int k))) * 2 powr (of_int k - 52)"
  by (simp add: to_double_def)

lemma FIXED_TIME_STEP_value: "FIXED_TIME_STEP = 4691249611844267 / 281474976710656"
proof -
  have b: "binade (1000 / 60) = 4"
    by (rule binade_eqI) simp_all
  have n: "round_half_even (1000 / 60 * 2 powr (52 - of_int 4)) = 4691249611844267"
    by (simp add: round_half_even_def Let_def)
  have nz: "(1000 / 60 :: real) \<noteq> 0" by simp
  from to_double_at [OF b nz]
  have "FIXED_TIME_STEP = of_int 4691249611844267 * 2 powr (of_int 4 - 52)"
    unfolding FIXED_TIME_STEP_def by (simp only: n)
  then show ?thesis by (simp add: powr_minus)
qed

lemma twice_FIXED_TIME_STEP: "to_double (2 * FIXED_TIME_STEP) = 4691249611844267 / 140737488355328"
proof -
  let ?d = "4691249611844267 / 140737488355328 :: real"
  have v: "2 * FIXED_TIME_STEP = ?d" by (simp add: FIXED_TIME_STEP_value)
  have b: "binade ?d = 5"
    by (rule binade_eqI) simp_all
  have n: "round_half_even (?d * 2 powr (52 - of_int 5)) = 4691249611844267"
    by (simp add: round_half_even_def Let_def)
  have nz: "?d \<noteq> 0" by simp
  from to_double_at [OF b nz]
  have "to_double ?d = of_int 4691249611844267 * 2 powr (of_int 5 - 52)"
    by (simp only: n)
  then show ?thesis unfolding v by (simp add: powr_minus)
qed

lemma quotient_near:
  fixes r :: int
  assumes small: "\<bar>r\<bar> \<le> 10 ^ 12"
  shows "\<bar>to_double (of_int r / (4691249611844267 / 140737488355328)) - 3 * of_int r / 100\<bar> < 1 / 200"
proof -
  let ?x = "of_int r / (4691249611844267 / 140737488355328) :: real"
  let ?q = "3 * of_int r / 100 :: real"
  have r: "\<bar>real_of_int r\<bar> \<le> 10 ^ 12"
    using small by (metis of_int_abs of_int_le_iff of_int_numeral of_int_power)
  have "?x - ?q = - of_int r / 469124961184426700"
    by (simp add: field_simps)
  then have xq: "\<bar>?x - ?q\<bar> = \<bar>of_int r\<bar> / 469124961184426700"
    by simp
  have xabs: "\<bar>?x\<bar> \<le> \<bar>of_int r\<bar> * 3 / 100"
    by (simp add: abs_divide field_simps)
  have "\<bar>to_double ?x - ?x\<bar> \<le> \<bar>?x\<bar> / 2 ^ 53"
    by (rule to_double_error)
  also have "\<dots> \<le> (\<bar>of_int r\<bar> * 3 / 100) / 2 ^ 53"
    by (rule divide_right_mono [OF xabs]) simp
  finally have err: "\<bar>to_double ?x - ?x\<bar> \<le> (\<bar>of_int r\<bar> * 3 / 100) / 2 ^ 53" .
  have "\<bar>to_double ?x - ?q\<bar> \<le> \<bar>to_double ?x - ?x\<bar> + \<bar>?x - ?q\<bar>"
    by simp
  also have "\<dots> \<le> (\<bar>of_int r\<bar> * 3 / 100) / 2 ^ 53 + \<bar>of_int r\<bar> / 469124961184426700"
    using err xq by simp
  also have "\<dots> < 1 / 200"
    using r by simp
  finally show ?thesis .
qed

lemma half_only_at_50:
  fixes r :: int
  assumes "(3 * r + 50) mod 100 = 0"
  shows "r mod 100 = 50"
proof -
  from assms have "100 dvd 3 * r + 50" by (simp add: mod_eq_0_iff_dvd)
  then obtain k where k: "3 * r + 50 = 100 * k" by (auto simp: dvd_def)
  then have "6700 * k = 201 * r + 3350" by linarith
  then have "r = 50 + 100 * (67 * k - 2 * r - 34)" by (simp add: algebra_simps)
  then obtain j where j: "r = 50 + 100 * j" ..
  show ?thesis by (subst j) simp
qed

lemma round_quotient:
  fixes r :: int
  assumes small: "\<bar>r\<bar> \<le> 10 ^ 12" and off_half: "r mod 100 \<noteq> 50"
  shows "\<lfloor>to_double (of_int r / (4691249611844267 / 140737488355328)) + 1 / 2\<rfloor> = (3 * r + 50) div 100"
proof -
  let ?y = "to_double (of_int r / (4691249611844267 / 140737488355328))"
  define m where "m = (3 * r + 50) div 100"
  define t where "t = (3 * r + 50) mod 100"
  from off_half half_only_at_50 [of r] have "t \<noteq> 0" by (auto simp: t_def)
  moreover have "0 \<le> t" "t < 100" by (simp_all add: t_def)
  ultimately have t: "1 \<le> t" "t \<le> 99" by linarith+
  have "3 * r + 50 = 100 * m + t" by (simp add: m_def t_def)
  then have "real_of_int (3 * r + 50) = real_of_int (100 * m + t)" by (rule arg_cong)
  then have q: "3 * real_of_int r / 100 + 1 / 2 = of_int m + of_int t / 100"
    by (simp add: field_simps)
  from t have tr: "1 \<le> real_of_int t" "real_of_int t \<le> 99"
    by linarith+
  from quotient_near [OF small] have "\<bar>?y - 3 * of_int r / 100\<bar> < 1 / 200" .
  then have near: "3 * real_of_int r / 100 - 1 / 200 < ?y" "?y < 3 * real_of_int r / 100 + 1 / 200"
    by linarith+
  from near(1) q tr(1) have lo: "of_int m \<le> ?y + 1 / 2" by linarith
  from near(2) q tr(2) have hi: "?y + 1 / 2 < of_int m + 1" by linarith
  from lo hi have "\<lfloor>?y + 1 / 2\<rfloor> = m" by (simp only: floor_eq_iff)
  then show ?thesis by (simp only: m_def)
qed

lemma at_250:
  "\<lfloor>to_double (of_int 250 / (4691249611844267 / 140737488355328)) + 1 / 2\<rfloor> = 7"
proof -
  let ?x = "250 / (4691249611844267 / 140737488355328) :: real"
  have b: "binade ?x = 2"
    by (rule binade_eqI) simp_all
  have n: "round_half_even (?x * 2 powr (52 - of_int 2)) = 8444249301319679"
    by (simp add: round_half_even_def Let_def)
  have nz: "?x \<noteq> 0" by simp
  from to_double_at [OF b nz]
  have "to_double ?x = of_int 8444249301319679 * 2 powr (of_int 2 - 52)"
    by (simp only: n)
  also have "\<dots> = 8444249301319679 / 1125899906842624"
    by (simp add: powr_minus)
  finally have v: "to_double ?x = 8444249301319679 / 1125899906842624" .
  have "\<lfloor>to_double ?x + 1 / 2\<rfloor> = 7"
    unfolding v by simp
  then show ?thesis by simp
qed

text \<open>
  The double quotient of an integer round trip time \<open>r\<close> lies within 1/200 of \<open>3 r / 100\<close>,
  so it rounds as \<open>3 r / 100\<close> does unless \<open>3 r / 100\<close> is a half-integer, which is the case
  exactly when \<open>r\<close> leaves the remainder 50 modulo 100. At \<open>r = 250\<close> the double quotient is
  \<open>8444249301319679 / 2 ^ 50\<close>, just below 7.5.
\<close>

lemma exact_round:
  "Math_round (real_of_int r / (2 * (1000 / 60))) = (3 * r + 50) div 100"
proof -
  have "real_of_int r / (2 * (1000 / 60)) + 1 / 2 = real_of_int (3 * r + 50) / real_of_int 100"
    by (simp add: field_simps)
  then show ?thesis
    unfolding Math_round_def by (simp only: floor_divide_of_int_eq)
qed

lemma pong_offset:
  "serverTickOffset (onMessage_pong clock scene) =
     \<lfloor>to_double (of_int (clock - lastPingTime scene) / (4691249611844267 / 140737488355328)) + 1 / 2\<rfloor>"
  by (simp only: onMessage_pong_def Let_def twice_FIXED_TIME_STEP Math_round_def) simp

text \<open>
  C8, as the code has it. The handler of the pong sets \<open>rtt\<close> to the time since the last
  ping. For every round trip time of at most \<open>10 ^ 12\<close> ms in magnitude that does not leave the
  remainder 50 modulo 100, the tick offset is \<open>round (rtt / (2 * (1000 / 60)))\<close>, computed
  exactly, which is the nearest integer to \<open>3 rtt / 100\<close>: a pong 100 ms after its ping
  gives the offset 3, one after 120 ms the offset 4.
\<close>

theorem tick_offset_rounds_quotient:
  assumes "\<bar>clock - lastPingTime scene\<bar> \<le> 10 ^ 12"
    and "(clock - lastPingTime scene) mod 100 \<noteq> 50"
  shows "rtt (onMessage_pong clock scene) = clock - lastPingTime scene \<and>
         serverTickOffset (onMessage_pong clock scene) =
           Math_round (real_of_int (rtt (onMessage_pong clock scene)) / (2 * (1000 / 60))) \<and>
         serverTickOffset (onMessage_pong clock scene) =
           (3 * (clock - lastPingTime scene) + 50) div 100"
proof -
  have r: "rtt (onMessage_pong clock scene) = clock - lastPingTime scene"
    by (simp add: onMessage_pong_def Let_def)
  from round_quotient [OF assms]
  have "serverTickOffset (onMessage_pong clock scene) = (3 * (clock - lastPingTime scene) + 50) div 100"
    by (simp only: pong_offset)
  with r show ?thesis by (simp only: exact_round)
qed

theorem tick_offset_rounds_quotient_witness:
  "\<bar>10100 - lastPingTime full_scene\<bar> \<le> 10 ^ 12 \<and>
   (10100 - lastPingTime full_scene) mod 100 \<noteq> 50 \<and>
   rtt (onMessage_pong 10100 full_scene) = 100 \<and>
   serverTickOffset (onMessage_pong 10100 full_scene) = 3 \<and>
   rtt (onMessage_pong 10120 full_scene) = 120 \<and>
   serverTickOffset (onMessage_pong 10120 full_scene) = 4"
proof -
  have p: "lastPingTime full_scene = 10000" by (simp add: full_scene_def)
  have a1: "\<bar>10100 - lastPingTime full_scene\<bar> \<le> 10 ^ 12" by (simp add: p)
  have b1: "(10100 - lastPingTime full_scene) mod 100 \<noteq> 50" by (simp add: p)
  have a2: "\<bar>10120 - lastPingTime full_scene\<bar> \<le> 10 ^ 12" by (simp add: p)
  have b2: "(10120 - lastPingTime full_scene) mod 100 \<noteq> 50" by (simp add: p)
  note first = tick_offset_rounds_quotient [OF a1 b1]
  note second = tick_offset_rounds_quotient [OF a2 b2]
  from first [THEN conjunct1] have r1: "rtt (onMessage_pong 10100 full_scene) = 100"
    by (simp add: p)
  from first [THEN conjunct2, THEN conjunct2]
  have o1: "serverTickOffset (onMessage_pong 10100 full_scene) = 3"
    by (simp add: p)
  from second [THEN conjunct1] have r2: "rtt (onMessage_pong 10120 full_scene) = 120"
    by (simp add: p)
  from second [THEN conjunct2, THEN conjunct2]
  have o2: "serverTickOffset (onMessage_pong 10120 full_scene) = 4"
    by (simp add: p)
  note c1 = r1 o1
  note c2 = r2 o2
  from a1 b1 c1 c2 show ?thesis by blast
qed

text \<open>
  The claim as stated holds for every pong. A pong 250 ms after its ping has the exact
  quotient 7.5, which rounds to 8; the quotient of the doubles is below 7.5 and the
  handler sets the offset 7.
\<close>

theorem tick_offset_half_counterexample:
  "rtt (onMessage_pong 10250 full_scene) = 250 \<and>
   Math_round (real_of_int (rtt (onMessage_pong 10250 full_scene)) / (2 * (1000 / 60))) = 8 \<and>
   serverTickOffset (onMessage_pong 10250 full_scene) = 7"
proof -
  have p: "lastPingTime full_scene = 10000" by (simp add: full_scene_def)
  have r: "rtt (onMessage_pong 10250 full_scene) = 250"
    by (simp add: onMessage_pong_def Let_def p)
  have e: "Math_round (real_of_int 250 / (2 * (1000 / 60))) = 8"
    by (simp only: exact_round)
  have o: "serverTickOffset (onMessage_pong 10250 full_scene) = 7"
    using at_250 by (simp only: pong_offset p) simp
  from r e o show ?thesis by simp
qed

section \<open>Commands for a session that has not joined\<close>

text \<open>
  C9. The handler of an input message looks the player up by session id. When there is no
  such player the handler returns without a change: the room (its players and their
  queues, their bodies, the tick counter and the level) is the room it was.
\<close>

theorem input_before_join_dropped:
  "players room sessionId = None \<Longrightarrow> onMessage_input sessionId input room = room"
  by (simp add: onMessage_input_def)

theorem input_before_join_dropped_witness:
  "players example_room ''b'' = None \<and>
   onMessage_input ''b'' (command True False True 9) example_room = example_room"
proof -
  have none: "players example_room ''b'' = None"
    by (simp add: example_room_def onJoin_def)
  from input_before_join_dropped [OF none] none show ?thesis by simp
qed

section \<open>Grounded without contact\<close>

text \<open>
  C10. The last test of \<open>isGrounded\<close> looks at the vertical velocity alone. A body whose
  vertical speed is below 0.1 is grounded whatever the collision test and the ray report,
  also when they report nothing, as at the apex of a jump; a jump command applied on the
  server in that step adds the jump force.
\<close>

theorem isGrounded_by_velocity_alone:
  "\<bar>velocity_y body\<bar> < 1 / 10 \<Longrightarrow>
     isGrounded M body groundBodies \<and>
     force_y (server_applyInput (isGrounded M body groundBodies) body (command l r True t)) =
       force_y body - JUMP_FORCE"
  by (simp add: isGrounded_def Let_def server_applyInput_def command_def applyJump_def
      Body_applyForce_def Body_setVelocity_def)

theorem isGrounded_by_velocity_alone_witness:
  "\<bar>velocity_y (createPlayerBody 7 300 200)\<bar> < 1 / 10 \<and>
   \<not> surfaceBelow Matter_void (createPlayerBody 7 300 200) (level_ground # level_platforms) \<and>
   Query_ray Matter_void (level_ground # level_platforms) (300, 200) (300, 218) = [] \<and>
   isGrounded Matter_void (createPlayerBody 7 300 200) (level_ground # level_platforms) \<and>
   force_y (server_applyInput
       (isGrounded Matter_void (createPlayerBody 7 300 200) (level_ground # level_platforms))
       (createPlayerBody 7 300 200) (command False False True 1)) = - JUMP_FORCE"
proof -
  have still: "\<bar>velocity_y (createPlayerBody 7 300 200)\<bar> < 1 / 10"
    by (simp add: createPlayerBody_def)
  have apart: "\<not> surfaceBelow Matter_void (createPlayerBody 7 300 200) (level_ground # level_platforms)"
    by (simp add: level_platforms_def onTopOf_def Matter_void_def)
  have ray: "Query_ray Matter_void (level_ground # level_platforms) (300, 200) (300, 218) = []"
    by (simp add: Matter_void_def)
  have rest: "force_y (createPlayerBody 7 300 200) = 0"
    by (simp add: createPlayerBody_def)
  note main = isGrounded_by_velocity_alone [OF still, of Matter_void
      "level_ground # level_platforms" False False 1]
  from main have grounded:
    "isGrounded Matter_void (createPlayerBody 7 300 200) (level_ground # level_platforms)"
    by (rule conjunct1)
  from main [THEN conjunct2] rest have pushed:
    "force_y (server_applyInput
       (isGrounded Matter_void (createPlayerBody 7 300 200) (level_ground # level_platforms))
       (createPlayerBody 7 300 200) (command False False True 1)) = - JUMP_FORCE"
    by simp
  from still apart ray grounded pushed show ?thesis by blast
qed

section \<open>Order of application and duplicates\<close>

lemma onMessage_input_joined:
  "players room sid = Some p \<Longrightarrow>
     players (onMessage_input sid c room) sid = Some (p\<lparr>inputQueue := inputQueue p @ [c]\<rparr>)"
  by (simp add: onMessage_input_def)

lemma enqueue_all_Cons:
  "enqueue_all sid (c # cs) room = enqueue_all sid cs (onMessage_input sid c room)"
  by (simp add: enqueue_all_def)

lemma enqueue_all_queue:
  "players room sid = Some p \<Longrightarrow>
     map_option inputQueue (players (enqueue_all sid cmds room) sid) = Some (inputQueue p @ cmds)"
proof (induction cmds arbitrary: room p)
  case Nil
  then show ?case by (simp add: enqueue_all_def)
next
  case (Cons c cs)
  from Cons.IH [OF onMessage_input_joined [OF Cons.prems, of c]]
  show ?case by (simp add: enqueue_all_Cons)
qed

lemma example_room_queue:
  "map_option inputQueue (players (enqueue_all ''a'' ticks_5_2_9_2 example_room) ''a'') =
     Some ticks_5_2_9_2"
  by (simp add: enqueue_all_def ticks_5_2_9_2_def example_room_def onJoin_def
      onMessage_input_def)

lemma sort_ticks_5_2_9_2:
  "sort_key tick ticks_5_2_9_2 =
     [command True False False 2, command False True False 2,
      command False False False 5, command False False False 9]"
  by (simp add: ticks_5_2_9_2_def command_def)

text \<open>
  C5, as the code has it. The message handler appends every command, so the four
  commands with the ticks 5, 2, 9, 2 are all queued and none is discarded. The step sorts
  the queue by tick, keeping commands of equal tick in the order of their arrival, and
  applies exactly the commands that are due, in that order: at tick 9 the commands of the
  ticks 2, 2, 5, 9, both commands of tick 2 among them, and the queue is empty after.
\<close>

theorem queue_applied_in_tick_order:
  "snd (processPlayer M gbs now p) =
     sort_key tick (filter (\<lambda>i. tick i \<le> now) (inputQueue p)) \<and>
   sorted (map tick (snd (processPlayer M gbs now p))) \<and>
   inputQueue (fst (processPlayer M gbs now p)) =
     (let remaining = sort_key tick (filter (\<lambda>i. now < tick i) (inputQueue p))
      in if length remaining > 20 then filter (\<lambda>i. tick i > now - 10) remaining
         else remaining) \<and>
   map_option inputQueue (players (enqueue_all ''a'' ticks_5_2_9_2 example_room) ''a'') =
     Some ticks_5_2_9_2 \<and>
   map_option (\<lambda>q. snd (processPlayer M gbs 9 q))
       (players (enqueue_all ''a'' ticks_5_2_9_2 example_room) ''a'') =
     Some [command True False False 2, command False True False 2,
           command False False False 5, command False False False 9] \<and>
   map_option (\<lambda>q. inputQueue (fst (processPlayer M gbs 9 q)))
       (players (enqueue_all ''a'' ticks_5_2_9_2 example_room) ''a'') = Some []"
proof -
  have applied: "snd (processPlayer M gbs now p) =
      sort_key tick (filter (\<lambda>i. tick i \<le> now) (inputQueue p))"
    by (rule processPlayer_applied)
  have ascending: "sorted (map tick (snd (processPlayer M gbs now p)))"
    by (simp add: processPlayer_applied)
  note rest = processPlayer_queue [of M gbs now p]
  from example_room_queue obtain q where
    q: "players (enqueue_all ''a'' ticks_5_2_9_2 example_room) ''a'' = Some q"
    and qq: "inputQueue q = ticks_5_2_9_2"
    by auto
  have all_due: "filter (\<lambda>i. tick i \<le> 9) ticks_5_2_9_2 = ticks_5_2_9_2"
    by (simp add: ticks_5_2_9_2_def command_def)
  have none_left: "filter (\<lambda>i. 9 < tick i) ticks_5_2_9_2 = []"
    by (simp add: ticks_5_2_9_2_def command_def)
  have four: "snd (processPlayer M gbs 9 q) =
      [command True False False 2, command False True False 2,
       command False False False 5, command False False False 9]"
    by (simp add: processPlayer_applied qq all_due sort_ticks_5_2_9_2)
  have empty: "inputQueue (fst (processPlayer M gbs 9 q)) = []"
    by (simp add: processPlayer_queue qq none_left)
  from applied ascending rest example_room_queue four empty q show ?thesis
    by simp
qed

text \<open>
  The claim as stated has the second command of tick 2 discarded and three commands
  applied. In the code four commands are queued and four are applied.
\<close>

theorem queue_duplicate_tick_counterexample:
  "map_option (\<lambda>q. length (inputQueue q))
       (players (enqueue_all ''a'' ticks_5_2_9_2 example_room) ''a'') = Some 4 \<and>
   map_option (\<lambda>q. map tick (snd (processPlayer Matter_void (level_ground # level_platforms) 9 q)))
       (players (enqueue_all ''a'' ticks_5_2_9_2 example_room) ''a'') = Some [2, 2, 5, 9] \<and>
   map_option (\<lambda>q. map tick (snd (processPlayer Matter_void (level_ground # level_platforms) 9 q)))
       (players (enqueue_all ''a'' ticks_5_2_9_2 example_room) ''a'') \<noteq> Some [2, 5, 9]"
proof -
  from example_room_queue obtain q where
    q: "players (enqueue_all ''a'' ticks_5_2_9_2 example_room) ''a'' = Some q"
    and qq: "inputQueue q = ticks_5_2_9_2"
    by auto
  have all_due: "filter (\<lambda>i. tick i \<le> 9) ticks_5_2_9_2 = ticks_5_2_9_2"
    by (simp add: ticks_5_2_9_2_def command_def)
  have "map tick (snd (processPlayer Matter_void (level_ground # level_platforms) 9 q)) =
      [2, 2, 5, 9]"
    by (simp add: processPlayer_applied qq all_due sort_ticks_5_2_9_2 command_def)
  moreover have "length (inputQueue q) = 4"
    by (simp add: qq ticks_5_2_9_2_def)
  ultimately show ?thesis using q by simp
qed

section \<open>Bounds of the buffer and of the queue\<close>

lemma applyInput_keeps:
  "inputBuffer (applyInput M i s) = inputBuffer s"
  "scene_currentTick (applyInput M i s) = scene_currentTick s"
  "serverTickOffset (applyInput M i s) = serverTickOffset s"
  by (auto simp add: applyInput_def Let_def split: option.splits)

lemma scene_fixedTick_buffer:
  "inputBuffer (fst (scene_fixedTick M keys s)) =
    (let t = scene_currentTick s + 1 + serverTickOffset s;
         buf = inputBuffer s @
                 [\<lparr>left = fst keys, right = fst (snd keys), jump = snd (snd keys), tick = t\<rparr>]
     in if length buf > 100 then filter (\<lambda>i. tick i > t - 50) buf else buf)"
  by (simp add: scene_fixedTick_def Let_def applyInput_keeps)

lemma scene_fixedTick_tick:
  "scene_currentTick (fst (scene_fixedTick M keys s)) = scene_currentTick s + 1"
  "serverTickOffset (fst (scene_fixedTick M keys s)) = serverTickOffset s"
  by (simp_all add: scene_fixedTick_def Let_def applyInput_keeps)

lemma queue_of_fixedTick:
  "queue_of (fixedTick M dt room) sid =
     (case players room sid of None \<Rightarrow> []
      | Some p \<Rightarrow> inputQueue (fst (processPlayer M (ground room # platforms room) (currentTick room + 1) p)))"
  by (simp add: queue_of_def fixedTick_def Let_def writeBack_def split: option.splits)

lemma processPlayer_queue_member:
  "i \<in> set (inputQueue p) \<Longrightarrow> now < tick i \<Longrightarrow> i \<in> set (inputQueue (fst (processPlayer M gbs now p)))"
  by (simp add: processPlayer_queue Let_def)

lemma onMessage_input_currentTick:
  "currentTick (onMessage_input sid c room) = currentTick room"
  by (simp add: onMessage_input_def split: option.splits)

lemma enqueue_all_currentTick: "currentTick (enqueue_all sid cmds room) = currentTick room"
  by (induction cmds arbitrary: room)
     (simp_all add: enqueue_all_Cons onMessage_input_currentTick, simp add: enqueue_all_def)

lemma waiting_room_player:
  "\<exists>p. players waiting_room ''a'' = Some p \<and> inputQueue p = early_commands"
proof -
  have "players example_room ''a'' \<noteq> None" by (simp add: example_room_def onJoin_def)
  then obtain p0 where p0: "players example_room ''a'' = Some p0" by auto
  have "inputQueue p0 = []" using p0 by (auto simp add: example_room_def onJoin_def)
  with enqueue_all_queue [OF p0, of early_commands] show ?thesis
    unfolding waiting_room_def by auto
qed

lemma processPlayer_queue_cleanup:
  "inputQueue (fst (processPlayer M gbs now p)) =
     (let remaining = queue_after_drain M gbs now p
      in if length remaining > 20 then filter (\<lambda>i. tick i > now - 10) remaining
         else remaining)"
  by (simp add: processPlayer_def queue_after_drain_def Let_def split: prod.splits)

lemma queue_after_drain_eq:
  "queue_after_drain M gbs now p = sort_key tick (filter (\<lambda>i. now < tick i) (inputQueue p))"
  by (simp add: queue_after_drain_def drainQueue_eq dropWhile_sorted_tick filter_sort)

lemma fixedTick_cleanup:
  assumes "players room sid = Some player"
    and "length (queue_after_drain M (ground room # platforms room) (currentTick room + 1) player) > 20"
  shows "\<forall>i \<in> set (queue_of (fixedTick M dt room) sid).
           tick i > currentTick (fixedTick M dt room) - 10"
  using assms
  by (simp add: queue_of_fixedTick processPlayer_queue_cleanup fixedTick_currentTick Let_def)

text \<open>
  C7, as the code has it. The scene compares the ticks in its buffer with the tick it has
  just stamped on its command, which is its tick counter plus the tick offset: after a
  step in which the buffer, with the new command, was longer than 100, every command left
  has a tick above \<open>currentTick + serverTickOffset - 50\<close>, hence above \<open>currentTick - 50\<close>
  when the offset is not negative. In the room, after a step in which the queue of an
  entity was longer than 20 when the loop had drained it, every command left in that
  queue has a tick above \<open>currentTick - 10\<close>.
\<close>

theorem buffers_bounded_after_step:
  assumes "length (inputBuffer scene) + 1 > 100"
    and "players room sid = Some player"
    and "length (queue_after_drain M (ground room # platforms room) (currentTick room + 1) player) > 20"
  shows
    "(\<forall>i \<in> set (inputBuffer (fst (scene_fixedTick M keys scene))).
        tick i > scene_currentTick (fst (scene_fixedTick M keys scene))
                   + serverTickOffset (fst (scene_fixedTick M keys scene)) - 50) \<and>
     (0 \<le> serverTickOffset scene \<longrightarrow>
        (\<forall>i \<in> set (inputBuffer (fst (scene_fixedTick M keys scene))).
           tick i > scene_currentTick (fst (scene_fixedTick M keys scene)) - 50)) \<and>
     (\<forall>i \<in> set (queue_of (fixedTick M dt room) sid).
        tick i > currentTick (fixedTick M dt room) - 10)"
proof -
  from assms(1) have kept:
    "\<forall>i \<in> set (inputBuffer (fst (scene_fixedTick M keys scene))).
        tick i > scene_currentTick (fst (scene_fixedTick M keys scene))
                   + serverTickOffset (fst (scene_fixedTick M keys scene)) - 50"
    by (auto simp add: scene_fixedTick_buffer scene_fixedTick_tick Let_def)
  then have "0 \<le> serverTickOffset scene \<longrightarrow>
        (\<forall>i \<in> set (inputBuffer (fst (scene_fixedTick M keys scene))).
           tick i > scene_currentTick (fst (scene_fixedTick M keys scene)) - 50)"
    by (fastforce simp add: scene_fixedTick_tick)
  with kept fixedTick_cleanup [OF assms(2,3)] show ?thesis by blast
qed

lemma early_commands_wait:
  "filter (\<lambda>i. 9 < tick i) early_commands = early_commands"
  "length early_commands = 25"
  by (auto simp add: early_commands_def command_def filter_id_conv)

theorem buffers_bounded_after_step_witness:
  "length (inputBuffer full_scene) + 1 > 100 \<and>
   (\<exists>player. players waiting_room ''a'' = Some player \<and>
      length (queue_after_drain Matter_void (ground waiting_room # platforms waiting_room)
                (currentTick waiting_room + 1) player) > 20) \<and>
   list_all (\<lambda>i. tick i > 101 + 0 - 50)
     (inputBuffer (fst (scene_fixedTick Matter_void (False, False, False) full_scene))) \<and>
   command False False False 101 \<in>
     set (inputBuffer (fst (scene_fixedTick Matter_void (False, False, False) full_scene))) \<and>
   list_all (\<lambda>i. tick i > 9 - 10)
     (queue_of (fixedTick Matter_void FIXED_TIME_STEP waiting_room) ''a'') \<and>
   command False False False 30 \<in>
     set (queue_of (fixedTick Matter_void FIXED_TIME_STEP waiting_room) ''a'')"
proof -
  let ?scene' = "fst (scene_fixedTick Matter_void (False, False, False) full_scene)"
  have long: "length (inputBuffer full_scene) + 1 > 100"
    by (simp add: full_scene_def)
  have now: "scene_currentTick ?scene' = 101" "serverTickOffset ?scene' = 0"
    by (simp_all add: scene_fixedTick_tick full_scene_def)
  have tick8: "currentTick waiting_room = 8"
    by (simp add: waiting_room_def enqueue_all_currentTick example_room_def onJoin_def)
  from waiting_room_player obtain p where p: "players waiting_room ''a'' = Some p"
    and pq: "inputQueue p = early_commands" by auto
  have many: "length (queue_after_drain Matter_void (ground waiting_room # platforms waiting_room)
                (currentTick waiting_room + 1) p) > 20"
    by (simp add: queue_after_drain_eq tick8 pq early_commands_wait)
  note main = buffers_bounded_after_step [OF long p many, of "(False, False, False)"
      FIXED_TIME_STEP]
  from main have "\<forall>i \<in> set (inputBuffer ?scene').
      tick i > scene_currentTick ?scene' + serverTickOffset ?scene' - 50"
    by (rule conjunct1)
  then have buffer: "list_all (\<lambda>i. tick i > 101 + 0 - 50) (inputBuffer ?scene')"
    unfolding list_all_iff now .
  from main have "\<forall>i \<in> set (queue_of (fixedTick Matter_void FIXED_TIME_STEP waiting_room) ''a'').
      tick i > currentTick (fixedTick Matter_void FIXED_TIME_STEP waiting_room) - 10"
    by (rule conjunct2 [THEN conjunct2])
  then have queue: "list_all (\<lambda>i. tick i > 9 - 10)
     (queue_of (fixedTick Matter_void FIXED_TIME_STEP waiting_room) ''a'')"
    unfolding list_all_iff fixedTick_currentTick tick8 by simp
  have newest: "command False False False 101 \<in> set (inputBuffer ?scene')"
    by (simp add: scene_fixedTick_buffer Let_def full_scene_def command_def)
  have "command False False False 30 \<in> set (inputQueue p)"
    by (simp add: pq early_commands_def)
  moreover have "8 + 1 < tick (command False False False 30)" by (simp add: command_def)
  ultimately have member: "command False False False 30 \<in>
      set (queue_of (fixedTick Matter_void FIXED_TIME_STEP waiting_room) ''a'')"
    by (simp only: queue_of_fixedTick p tick8 option.case processPlayer_queue_member)
  from p many have ex: "\<exists>player. players waiting_room ''a'' = Some player \<and>
      length (queue_after_drain Matter_void (ground waiting_room # platforms waiting_room)
                (currentTick waiting_room + 1) player) > 20"
    by blast
  from long ex buffer queue newest member show ?thesis by blast
qed

lemma offset_minus_60: "serverTickOffset (onMessage_pong 8000 full_scene) = - 60"
proof -
  have p: "lastPingTime full_scene = 10000" by (simp add: full_scene_def)
  have "\<lfloor>to_double (of_int (- 2000) / (4691249611844267 / 140737488355328)) + 1 / 2\<rfloor>
      = (3 * (- 2000) + 50) div 100"
    by (rule round_quotient) simp_all
  then show ?thesis by (simp only: pong_offset p) simp
qed

text \<open>
  The claim as stated measures against the tick counter of the scene. Let the clock of the
  client be set back by two seconds between a ping and its pong: the round trip time is
  negative and the tick offset is -60. The next step, at tick 101, stamps its command with
  the tick 41 and keeps every command of a tick above -9, the command of tick 1 among
  them, which is not above 101 - 50.
\<close>

theorem buffer_bound_counterexample:
  "serverTickOffset (onMessage_pong 8000 full_scene) = - 60 \<and>
   length (inputBuffer (onMessage_pong 8000 full_scene)) + 1 > 100 \<and>
   scene_currentTick (fst (scene_fixedTick Matter_void (False, False, False)
       (onMessage_pong 8000 full_scene))) = 101 \<and>
   command False False False 1 \<in>
     set (inputBuffer (fst (scene_fixedTick Matter_void (False, False, False)
       (onMessage_pong 8000 full_scene)))) \<and>
   \<not> (\<forall>i \<in> set (inputBuffer (fst (scene_fixedTick Matter_void (False, False, False)
           (onMessage_pong 8000 full_scene)))).
        tick i > scene_currentTick (fst (scene_fixedTick Matter_void (False, False, False)
           (onMessage_pong 8000 full_scene))) - 50)"
proof -
  let ?s = "onMessage_pong 8000 full_scene"
  let ?s' = "fst (scene_fixedTick Matter_void (False, False, False) ?s)"
  have off: "serverTickOffset ?s = - 60"
    by (rule offset_minus_60)
  have len: "length (inputBuffer ?s) + 1 > 100"
    by (simp add: onMessage_pong_def full_scene_def Let_def)
  have b: "inputBuffer ?s = map (command False False False) [1..100]"
    by (simp add: onMessage_pong_def full_scene_def Let_def)
  have t: "scene_currentTick ?s = 100"
    by (simp add: onMessage_pong_def full_scene_def Let_def)
  have t': "scene_currentTick ?s' = 101"
    by (simp add: scene_fixedTick_tick t)
  have m: "command False False False 1 \<in> set (inputBuffer ?s')"
    by (simp add: scene_fixedTick_buffer Let_def b t off command_def image_iff)
  have "\<not> tick (command False False False 1) > scene_currentTick ?s' - 50"
    by (simp add: t' command_def)
  with m have "\<not> (\<forall>i \<in> set (inputBuffer ?s'). tick i > scene_currentTick ?s' - 50)"
    by blast
  with off len t' m show ?thesis by blast
qed

section \<open>The watermark\<close>

lemma last_ge:
  "\<forall>x \<in> set xs. (l::int) \<le> x \<Longrightarrow> l \<le> last (l # xs)"
  by (induction xs) auto

lemma processPlayer_lpt_mono:
  assumes "list_all (\<lambda>i. lastProcessedTick p \<le> tick i) (inputQueue p)"
  shows "lastProcessedTick p \<le> lastProcessedTick (fst (processPlayer M gbs now p))"
  unfolding processPlayer_lpt using assms
  by (intro last_ge) (auto simp add: list_all_iff)

lemma last_le:
  "\<forall>x \<in> set xs. x \<le> (n::int) \<Longrightarrow> xs \<noteq> [] \<Longrightarrow> last (l # xs) \<le> n"
  by (induction xs arbitrary: l) auto

lemma processPlayer_ahead:
  assumes "list_all (\<lambda>i. lastProcessedTick p \<le> tick i) (inputQueue p)"
  shows "list_all (\<lambda>i. lastProcessedTick (fst (processPlayer M gbs now p)) \<le> tick i)
           (inputQueue (fst (processPlayer M gbs now p)))"
proof -
  let ?due = "sort_key tick (filter (\<lambda>i. tick i \<le> now) (inputQueue p))"
  have "\<forall>i \<in> set (inputQueue (fst (processPlayer M gbs now p))).
          lastProcessedTick (fst (processPlayer M gbs now p)) \<le> tick i"
  proof
    fix i assume i: "i \<in> set (inputQueue (fst (processPlayer M gbs now p)))"
    then have late: "now < tick i" by (rule processPlayer_queue_due)
    from i have old: "i \<in> set (inputQueue p)"
      by (auto simp add: processPlayer_queue Let_def split: if_splits)
    show "lastProcessedTick (fst (processPlayer M gbs now p)) \<le> tick i"
    proof (cases "?due = []")
      case True
      then have "lastProcessedTick (fst (processPlayer M gbs now p)) = lastProcessedTick p"
        by (simp add: processPlayer_lpt)
      with assms old show ?thesis by (simp add: list_all_iff)
    next
      case False
      have "last (lastProcessedTick p # map tick ?due) \<le> now"
        using False by (intro last_le) auto
      with late show ?thesis by (simp add: processPlayer_lpt)
    qed
  qed
  then show ?thesis by (simp add: list_all_iff)
qed

lemma fixedTick_player:
  "players (fixedTick M dt room) sid =
     map_option (\<lambda>p. writeBack (currentTick room + 1)
        (Engine_update M dt
           (\<lambda>s. map_option (\<lambda>q. player_body (fst (processPlayer M (ground room # platforms room) (currentTick room + 1) q))) (players room s))
           (player_body (fst (processPlayer M (ground room # platforms room) (currentTick room + 1) p))))
        (fst (processPlayer M (ground room # platforms room) (currentTick room + 1) p)))
     (players room sid)"
  by (simp add: fixedTick_def Let_def option.map_comp comp_def)

lemma writeBack_keeps:
  "lastProcessedTick (writeBack now b p) = lastProcessedTick p"
  "inputQueue (writeBack now b p) = inputQueue p"
  by (simp_all add: writeBack_def)

lemma fixedTick_step:
  assumes "players room sid = Some p" and "queue_ahead room sid"
  shows "\<exists>p'. players (fixedTick M dt room) sid = Some p' \<and>
           lastProcessedTick p \<le> lastProcessedTick p' \<and> queue_ahead (fixedTick M dt room) sid"
  using assms processPlayer_lpt_mono [of p M "ground room # platforms room" "currentTick room + 1"]
    processPlayer_ahead [of p M "ground room # platforms room" "currentTick room + 1"]
  by (simp add: fixedTick_player queue_ahead_def writeBack_keeps)

lemma onMessage_input_step:
  assumes "players room sid = Some p" and "queue_ahead room sid"
    and "if s = sid then lastProcessedTick p \<le> tick input else True"
  shows "\<exists>p'. players (onMessage_input s input room) sid = Some p' \<and>
           lastProcessedTick p \<le> lastProcessedTick p' \<and>
           queue_ahead (onMessage_input s input room) sid"
  using assms
  by (auto simp add: onMessage_input_def queue_ahead_def split: option.splits if_splits)

lemma watermark_run:
  assumes "players room sid = Some p" and "queue_ahead room sid"
    and "no_late_input M sid room events"
  shows "\<exists>p'. players (room_run M room events) sid = Some p' \<and>
           lastProcessedTick p \<le> lastProcessedTick p' \<and>
           queue_ahead (room_run M room events) sid"
  using assms
proof (induction events arbitrary: room p)
  case Nil
  then show ?case by (simp add: room_run_def)
next
  case (Cons e events)
  show ?case
  proof (cases e)
    case (Input_message s input)
    from Cons.prems Input_message
    have ok: "if s = sid then lastProcessedTick p \<le> tick input else True"
      and rest: "no_late_input M sid (onMessage_input s input room) events"
      by (auto split: if_splits)
    from onMessage_input_step [OF Cons.prems(1,2) ok]
    obtain p1 where p1: "players (onMessage_input s input room) sid = Some p1"
      and le1: "lastProcessedTick p \<le> lastProcessedTick p1"
      and inv1: "queue_ahead (onMessage_input s input room) sid" by blast
    from Cons.IH [OF p1 inv1 rest] le1 Input_message show ?thesis
      by (fastforce simp add: room_run_def)
  next
    case Fixed_tick
    from Cons.prems Fixed_tick
    have rest: "no_late_input M sid (fixedTick M FIXED_TIME_STEP room) events" by simp
    from fixedTick_step [OF Cons.prems(1,2)]
    obtain p1 where p1: "players (fixedTick M FIXED_TIME_STEP room) sid = Some p1"
      and le1: "lastProcessedTick p \<le> lastProcessedTick p1"
      and inv1: "queue_ahead (fixedTick M FIXED_TIME_STEP room) sid" by blast
    from Cons.IH [OF p1 inv1 rest] le1 Fixed_tick show ?thesis
      by (fastforce simp add: room_run_def)
  qed
qed

lemma no_late_input_append:
  "no_late_input M sid room (es1 @ es2) \<Longrightarrow>
     no_late_input M sid room es1 \<and> no_late_input M sid (room_run M room es1) es2"
proof (induction es1 arbitrary: room)
  case Nil
  then show ?case by (simp add: room_run_def)
next
  case (Cons e es1)
  then show ?case by (cases e) (auto simp add: room_run_def)
qed

lemma fixedTick_watermark:
  "map_option lastProcessedTick (players (fixedTick M dt room) sid) =
     map_option (\<lambda>p. last (lastProcessedTick p #
        map tick (sort_key tick (filter (\<lambda>i. tick i \<le> currentTick room + 1) (inputQueue p)))))
       (players room sid)"
  by (simp add: fixedTick_player option.map_comp comp_def writeBack_keeps processPlayer_lpt)

lemma fixedTick_queue:
  "map_option inputQueue (players (fixedTick M dt room) sid) =
     map_option (\<lambda>p. inputQueue
         (fst (processPlayer M (ground room # platforms room) (currentTick room + 1) p)))
       (players room sid)"
  by (simp add: fixedTick_player option.map_comp comp_def writeBack_keeps)

lemma after_5_facts:
  "currentTick after_5 = 9"
  "map_option lastProcessedTick (players after_5 ''a'') = Some 5"
  "map_option inputQueue (players after_5 ''a'') = Some []"
  by (simp_all add: after_5_def room_run_def message_5_def example_room_def onJoin_def
      onMessage_input_def fixedTick_currentTick fixedTick_watermark fixedTick_queue
      processPlayer_queue command_def Let_def)

lemma after_5_then:
  "map_option lastProcessedTick
     (players (room_run Matter_void after_5 [Input_message ''a'' (command l r j t), Fixed_tick]) ''a'') =
   Some (if t \<le> 10 then t else 5)"
proof -
  from after_5_facts obtain p where p: "players after_5 ''a'' = Some p"
    and l: "lastProcessedTick p = 5" and q: "inputQueue p = []"
    by auto
  show ?thesis
    by (simp add: room_run_def onMessage_input_def p l q fixedTick_watermark after_5_facts
        command_def)
qed

lemma run_after_5:
  "room_run Matter_void example_room ([message_5, Fixed_tick] @ events) =
     room_run Matter_void after_5 events"
  by (simp add: after_5_def room_run_def)

text \<open>
  C3, as the code has it. Every command that is applied overwrites \<open>lastProcessedTick\<close>
  with its tick. Over any sequence of input messages and fixed steps in which no command
  of the entity arrives with a tick below the watermark of that moment, the watermark
  never decreases: its value after any prefix of the sequence is at most its value after
  the whole sequence.
\<close>

theorem watermark_monotone_without_late_input:
  assumes "players room sid = Some p"
    and "list_all (\<lambda>i. lastProcessedTick p \<le> tick i) (inputQueue p)"
    and "no_late_input M sid room (events1 @ events2)"
  shows "\<exists>p1 p2. players (room_run M room events1) sid = Some p1 \<and>
           players (room_run M room (events1 @ events2)) sid = Some p2 \<and>
           lastProcessedTick p \<le> lastProcessedTick p1 \<and>
           lastProcessedTick p1 \<le> lastProcessedTick p2"
proof -
  from assms(1,2) have inv: "queue_ahead room sid" by (simp add: queue_ahead_def)
  from no_late_input_append [OF assms(3)]
  have ok1: "no_late_input M sid room events1"
    and ok2: "no_late_input M sid (room_run M room events1) events2" by simp_all
  from watermark_run [OF assms(1) inv ok1]
  obtain p1 where p1: "players (room_run M room events1) sid = Some p1"
    and le1: "lastProcessedTick p \<le> lastProcessedTick p1"
    and inv1: "queue_ahead (room_run M room events1) sid" by blast
  from watermark_run [OF p1 inv1 ok2]
  obtain p2 where p2: "players (room_run M (room_run M room events1) events2) sid = Some p2"
    and le2: "lastProcessedTick p1 \<le> lastProcessedTick p2" by blast
  have "room_run M (room_run M room events1) events2 = room_run M room (events1 @ events2)"
    by (simp add: room_run_def)
  with p1 p2 le1 le2 show ?thesis by auto
qed

theorem watermark_monotone_without_late_input_witness:
  "no_late_input Matter_void ''a'' example_room ([message_5, Fixed_tick] @ [message_9, Fixed_tick]) \<and>
   (\<exists>p1 p2.
      players (room_run Matter_void example_room [message_5, Fixed_tick]) ''a'' = Some p1 \<and>
      players (room_run Matter_void example_room
         ([message_5, Fixed_tick] @ [message_9, Fixed_tick])) ''a'' = Some p2 \<and>
      lastProcessedTick p1 \<le> lastProcessedTick p2) \<and>
   map_option lastProcessedTick
     (players (room_run Matter_void example_room [message_5, Fixed_tick]) ''a'') = Some 5 \<and>
   map_option lastProcessedTick
     (players (room_run Matter_void example_room
        ([message_5, Fixed_tick] @ [message_9, Fixed_tick])) ''a'') = Some 9"
proof -
  have "players example_room ''a'' \<noteq> None"
    by (simp add: example_room_def onJoin_def)
  then obtain p0 where p0: "players example_room ''a'' = Some p0"
    by auto
  then have "inputQueue p0 = []"
    by (auto simp add: example_room_def onJoin_def)
  then have ahead: "list_all (\<lambda>i. lastProcessedTick p0 \<le> tick i) (inputQueue p0)"
    by simp
  from after_5_facts obtain p where p: "players after_5 ''a'' = Some p"
    and l: "lastProcessedTick p = 5"
    by auto
  have step: "fixedTick Matter_void FIXED_TIME_STEP
      (onMessage_input ''a'' (command False True False 5) example_room) = after_5"
    by (simp add: after_5_def room_run_def message_5_def)
  have timely: "no_late_input Matter_void ''a'' example_room
      ([message_5, Fixed_tick] @ [message_9, Fixed_tick])"
    by (simp add: message_5_def message_9_def step p l,
        simp add: example_room_def onJoin_def command_def)
  from watermark_monotone_without_late_input [OF p0 ahead timely]
  have ordered: "\<exists>p1 p2.
      players (room_run Matter_void example_room [message_5, Fixed_tick]) ''a'' = Some p1 \<and>
      players (room_run Matter_void example_room
         ([message_5, Fixed_tick] @ [message_9, Fixed_tick])) ''a'' = Some p2 \<and>
      lastProcessedTick p1 \<le> lastProcessedTick p2"
    by blast
  have first: "map_option lastProcessedTick
      (players (room_run Matter_void example_room [message_5, Fixed_tick]) ''a'') = Some 5"
    using after_5_facts(2) by (simp add: after_5_def)
  have second: "map_option lastProcessedTick
      (players (room_run Matter_void example_room
         ([message_5, Fixed_tick] @ [message_9, Fixed_tick])) ''a'') = Some 9"
    unfolding run_after_5 message_9_def by (simp only: after_5_then) simp
  from timely ordered first second show ?thesis by blast
qed

text \<open>
  The claim as stated includes the commands that arrive late. In the room of the example
  the command of tick 5 is applied by the step of tick 9, and the watermark is 5. The
  command of tick 2 arrives after that step; the step of tick 10 applies it, and the
  watermark is 2.
\<close>

theorem watermark_late_input_counterexample:
  "map_option lastProcessedTick
     (players (room_run Matter_void example_room [message_5, Fixed_tick]) ''a'') = Some 5 \<and>
   map_option lastProcessedTick
     (players (room_run Matter_void example_room
        ([message_5, Fixed_tick] @ [message_2, Fixed_tick])) ''a'') = Some 2"
proof -
  have first: "map_option lastProcessedTick
      (players (room_run Matter_void example_room [message_5, Fixed_tick]) ''a'') = Some 5"
    using after_5_facts(2) by (simp add: after_5_def)
  have second: "map_option lastProcessedTick
      (players (room_run Matter_void example_room
         ([message_5, Fixed_tick] @ [message_2, Fixed_tick])) ''a'') = Some 2"
    unfolding run_after_5 message_2_def by (simp only: after_5_then) simp
  from first second show ?thesis by blast
qed

section \<open>Reconciliation\<close>

lemma Linear_gap: "Linear p0 p1 t - p1 = (1 - t) * (p0 - p1)"
  by (simp add: Linear_def algebra_simps)

lemma Distance_Between_Linear:
  "Distance_Between (Linear x1 x2 t) (Linear y1 y2 t) x2 y2 = \<bar>1 - t\<bar> * Distance_Between x1 y1 x2 y2"
proof -
  have "(Linear x1 x2 t - x2) * (Linear x1 x2 t - x2) + (Linear y1 y2 t - y2) * (Linear y1 y2 t - y2)
      = (1 - t)\<^sup>2 * ((x1 - x2) * (x1 - x2) + (y1 - y2) * (y1 - y2))"
    unfolding Linear_gap by (simp add: algebra_simps power2_eq_square)
  then show ?thesis
    by (simp add: Distance_Between_def real_sqrt_mult)
qed

lemma reconcile_no_replay:
  assumes "currentPlayer scene = Some body"
    and "filter (\<lambda>input. tick input > lastProcessedTick serverPlayer) (inputBuffer scene) = []"
  shows "divergence serverPlayer (reconcileWithServer M serverPlayer scene) =
           map_option (\<lambda>d. if d > 30 then d / 2 else 4 * d / 5) (divergence serverPlayer scene)"
    and "inputBuffer (reconcileWithServer M serverPlayer scene) = []"
    and "lastReconciledTick (reconcileWithServer M serverPlayer scene) = lastProcessedTick serverPlayer"
  using assms
  by (simp_all add: reconcileWithServer_def divergence_def Let_def Body_setPosition_def
      Body_setVelocity_def Distance_Between_Linear)

lemma predicted_scene_divergence: "divergence authoritative_player predicted_scene = Some 40"
proof -
  have "sqrt 1600 = 40" by (rule real_sqrt_unique) simp_all
  then show ?thesis
    by (simp add: divergence_def authoritative_player_def predicted_scene_def createPlayerBody_def
       Distance_Between_def SPAWN_X_def SPAWN_Y_def)
qed

lemma predicted_scene_acknowledged: "filter (\<lambda>input. tick input > lastProcessedTick authoritative_player) (inputBuffer predicted_scene) = []"
  by (simp add: authoritative_player_def predicted_scene_def command_def)


text \<open>
  C4, as the code has it. A reconciliation pass with no command left to replay moves the
  predicted position towards the reported one by the blend factor: a distance above 30 is
  halved (40 becomes 20), a distance of at most 30 is reduced by a fifth only (20 becomes
  16, not 10). The buffer is empty after the pass.
\<close>

theorem reconciliation_pass_blend:
  assumes "filter (\<lambda>input. tick input > lastProcessedTick serverPlayer) (inputBuffer scene) = []"
    and "divergence serverPlayer scene = Some d"
  shows "divergence serverPlayer (reconcileWithServer M serverPlayer scene) =
           Some (if d > 30 then d / 2 else 4 * d / 5) \<and>
         inputBuffer (reconcileWithServer M serverPlayer scene) = []"
proof -
  from assms(2) obtain body where "currentPlayer scene = Some body"
    by (auto simp add: divergence_def)
  from reconcile_no_replay [OF this assms(1)] assms(2) show ?thesis by simp
qed

lemma two_passes:
  "divergence authoritative_player predicted_scene = Some 40"
  "divergence authoritative_player (onChange Matter_void authoritative_player predicted_scene) = Some 20"
  "divergence later_player
     (onChange Matter_void later_player (onChange Matter_void authoritative_player predicted_scene)) = Some 16"
proof -
  let ?s1 = "reconcileWithServer Matter_void authoritative_player predicted_scene"
  let ?s2 = "reconcileWithServer Matter_void later_player ?s1"
  have cp: "currentPlayer predicted_scene = Some (createPlayerBody 7 SPAWN_X SPAWN_Y)"
    by (simp add: predicted_scene_def)
  have gate1: "onChange Matter_void authoritative_player predicted_scene = ?s1"
    by (simp add: onChange_def authoritative_player_def predicted_scene_def)
  have same: "divergence later_player sc = divergence authoritative_player sc" for sc
    by (simp add: divergence_def later_player_def)
  have d1: "divergence authoritative_player ?s1 = Some 20"
    using reconcile_no_replay(1) [OF cp predicted_scene_acknowledged, of Matter_void] by (simp add: predicted_scene_divergence)
  have gate2: "onChange Matter_void later_player ?s1 = ?s2"
    using reconcile_no_replay(3) [OF cp predicted_scene_acknowledged, of Matter_void]
    by (simp add: onChange_def later_player_def authoritative_player_def)
  from d1 obtain b1 where cp1: "currentPlayer ?s1 = Some b1" by (auto simp add: divergence_def)
  have ack1: "filter (\<lambda>input. tick input > lastProcessedTick later_player) (inputBuffer ?s1) = []"
    using reconcile_no_replay(2) [OF cp predicted_scene_acknowledged, of Matter_void] by simp
  have d2: "divergence later_player ?s2 = Some 16"
    using reconcile_no_replay(1) [OF cp1 ack1, of Matter_void] by (simp add: same d1)
  show "divergence authoritative_player predicted_scene = Some 40" by (rule predicted_scene_divergence)
  show "divergence authoritative_player (onChange Matter_void authoritative_player predicted_scene) = Some 20"
    by (simp add: gate1 d1)
  show "divergence later_player
     (onChange Matter_void later_player (onChange Matter_void authoritative_player predicted_scene)) = Some 16"
    by (simp add: gate1 gate2 d2)
qed

theorem reconciliation_pass_blend_witness:
  "filter (\<lambda>input. tick input > lastProcessedTick authoritative_player)
     (inputBuffer predicted_scene) = [] \<and>
   divergence authoritative_player predicted_scene = Some 40 \<and>
   divergence authoritative_player
     (reconcileWithServer Matter_void authoritative_player predicted_scene) = Some 20 \<and>
   inputBuffer (reconcileWithServer Matter_void authoritative_player predicted_scene) = [] \<and>
   divergence later_player
     (reconcileWithServer Matter_void later_player
        (reconcileWithServer Matter_void authoritative_player predicted_scene)) = Some 16"
proof -
  let ?s1 = "reconcileWithServer Matter_void authoritative_player predicted_scene"
  note first = reconciliation_pass_blend
    [OF predicted_scene_acknowledged predicted_scene_divergence, of Matter_void]
  from first have d1: "divergence authoritative_player ?s1 = Some 20"
    and b1: "inputBuffer ?s1 = []"
    by simp_all
  have same: "divergence later_player sc = divergence authoritative_player sc" for sc
    by (simp add: divergence_def later_player_def)
  from b1 have ack1:
    "filter (\<lambda>input. tick input > lastProcessedTick later_player) (inputBuffer ?s1) = []"
    by simp
  from d1 have d1': "divergence later_player ?s1 = Some 20"
    by (simp add: same)
  from reconciliation_pass_blend [OF ack1 d1', of Matter_void]
  have d2: "divergence later_player (reconcileWithServer Matter_void later_player ?s1) = Some 16"
    by simp
  from predicted_scene_acknowledged predicted_scene_divergence d1 b1 d2 show ?thesis
    by blast
qed

text \<open>
  The claim as stated has the second pass halve the distance again. After the first pass
  the distance is 20, which is not above the threshold of 30: the second pass uses the
  factor 0.2 and leaves the distance 16.
\<close>

theorem reconciliation_second_pass_counterexample:
  "divergence authoritative_player predicted_scene = Some 40 \<and>
   divergence authoritative_player
     (onChange Matter_void authoritative_player predicted_scene) = Some 20 \<and>
   divergence later_player
     (onChange Matter_void later_player
        (onChange Matter_void authoritative_player predicted_scene)) = Some 16 \<and>
   divergence later_player
     (onChange Matter_void later_player
        (onChange Matter_void authoritative_player predicted_scene)) \<noteq> Some 10"
  using two_passes by simp

section \<open>Determinism of the authoritative step\<close>

text \<open>
  What the step of one player reads of that player: the body, the queue and
  \<open>lastProcessedTick\<close>. The other fields of the player are written, not read.
\<close>

lemma processPlayer_reads:
  assumes "player_body p1 = player_body p2" "inputQueue p1 = inputQueue p2"
    "lastProcessedTick p1 = lastProcessedTick p2"
  shows "player_body (fst (processPlayer M gbs now p1)) = player_body (fst (processPlayer M gbs now p2))"
    and "writeBack now b (fst (processPlayer M gbs now p1)) = writeBack now b (fst (processPlayer M gbs now p2))"
  using assms
  by (cases p1; cases p2; simp add: processPlayer_def writeBack_def Let_def split: prod.splits)+

lemma same_fields:
  assumes "map_option player_body x1 = map_option player_body x2"
    "map_option inputQueue x1 = map_option inputQueue x2"
    "map_option lastProcessedTick x1 = map_option lastProcessedTick x2"
  shows "map_option (\<lambda>p. player_body (fst (processPlayer M gbs now p))) x1 =
         map_option (\<lambda>p. player_body (fst (processPlayer M gbs now p))) x2"
    and "map_option (\<lambda>p. writeBack now (E (player_body (fst (processPlayer M gbs now p))))
            (fst (processPlayer M gbs now p))) x1 =
         map_option (\<lambda>p. writeBack now (E (player_body (fst (processPlayer M gbs now p))))
            (fst (processPlayer M gbs now p))) x2"
proof -
  show "map_option (\<lambda>p. player_body (fst (processPlayer M gbs now p))) x1 =
        map_option (\<lambda>p. player_body (fst (processPlayer M gbs now p))) x2"
  proof (cases x1)
    case None
    with assms(1) show ?thesis by simp
  next
    case (Some p1)
    with assms(1) obtain p2 where p2: "x2 = Some p2" by (cases x2) simp_all
    from assms Some p2 have "player_body p1 = player_body p2" "inputQueue p1 = inputQueue p2"
      "lastProcessedTick p1 = lastProcessedTick p2" by simp_all
    from processPlayer_reads(1) [OF this] Some p2 show ?thesis by simp
  qed
  show "map_option (\<lambda>p. writeBack now (E (player_body (fst (processPlayer M gbs now p))))
            (fst (processPlayer M gbs now p))) x1 =
        map_option (\<lambda>p. writeBack now (E (player_body (fst (processPlayer M gbs now p))))
            (fst (processPlayer M gbs now p))) x2"
  proof (cases x1)
    case None
    with assms(1) show ?thesis by simp
  next
    case (Some p1)
    with assms(1) obtain p2 where p2: "x2 = Some p2" by (cases x2) simp_all
    from assms Some p2 have same: "player_body p1 = player_body p2" "inputQueue p1 = inputQueue p2"
      "lastProcessedTick p1 = lastProcessedTick p2" by simp_all
    from processPlayer_reads(1) [OF same, of M gbs now]
      processPlayer_reads(2) [OF same, of now _ M gbs] Some p2
    show ?thesis by simp
  qed
qed

lemma fixedTick_reads:
  assumes tick: "currentTick room1 = currentTick room2"
    and level: "ground room1 = ground room2" "platforms room1 = platforms room2"
    and bodies: "\<And>s. map_option player_body (players room1 s) = map_option player_body (players room2 s)"
    and queues: "\<And>s. map_option inputQueue (players room1 s) = map_option inputQueue (players room2 s)"
    and marks: "\<And>s. map_option lastProcessedTick (players room1 s) =
                  map_option lastProcessedTick (players room2 s)"
  shows "fixedTick M dt room1 = fixedTick M dt room2"
proof -
  let ?gbs = "ground room2 # platforms room2"
  let ?now = "currentTick room2 + 1"
  let ?world = "\<lambda>room s. map_option (\<lambda>p. player_body (fst (processPlayer M ?gbs ?now p))) (players room s)"
  have world: "?world room1 = ?world room2"
    by (rule ext) (rule same_fields(1) [OF bodies queues marks])
  have "players (fixedTick M dt room1) s = players (fixedTick M dt room2) s" for s
    unfolding fixedTick_player tick level world
    by (rule same_fields(2) [OF bodies queues marks])
  then have "players (fixedTick M dt room1) = players (fixedTick M dt room2)"
    by (rule ext)
  moreover have "currentTick (fixedTick M dt room1) = currentTick (fixedTick M dt room2)"
    by (simp add: fixedTick_currentTick tick)
  moreover have "ground (fixedTick M dt room1) = ground (fixedTick M dt room2)"
    "platforms (fixedTick M dt room1) = platforms (fixedTick M dt room2)"
    by (simp_all add: fixedTick_def Let_def level)
  ultimately show ?thesis by (rule PlatformerRoom.equality) simp
qed

lemma onMessage_input_fields:
  "currentTick (onMessage_input sid c room) = currentTick room"
  "ground (onMessage_input sid c room) = ground room"
  "platforms (onMessage_input sid c room) = platforms room"
  "map_option player_body (players (onMessage_input sid c room) s) = map_option player_body (players room s)"
  "map_option lastProcessedTick (players (onMessage_input sid c room) s) =
     map_option lastProcessedTick (players room s)"
  "map_option inputQueue (players (onMessage_input sid c room) s) =
     (if s = sid then map_option (\<lambda>q. q @ [c]) (map_option inputQueue (players room s))
      else map_option inputQueue (players room s))"
  by (auto simp add: onMessage_input_def split: option.splits)

lemma enqueue_all_reads:
  assumes "currentTick room1 = currentTick room2"
    and "ground room1 = ground room2" "platforms room1 = platforms room2"
    and "\<And>s. map_option player_body (players room1 s) = map_option player_body (players room2 s)"
    and "\<And>s. map_option inputQueue (players room1 s) = map_option inputQueue (players room2 s)"
    and "\<And>s. map_option lastProcessedTick (players room1 s) =
                  map_option lastProcessedTick (players room2 s)"
  shows "currentTick (enqueue_all sid cmds room1) = currentTick (enqueue_all sid cmds room2) \<and>
         ground (enqueue_all sid cmds room1) = ground (enqueue_all sid cmds room2) \<and>
         platforms (enqueue_all sid cmds room1) = platforms (enqueue_all sid cmds room2) \<and>
         (\<forall>s. map_option player_body (players (enqueue_all sid cmds room1) s) =
              map_option player_body (players (enqueue_all sid cmds room2) s)) \<and>
         (\<forall>s. map_option inputQueue (players (enqueue_all sid cmds room1) s) =
              map_option inputQueue (players (enqueue_all sid cmds room2) s)) \<and>
         (\<forall>s. map_option lastProcessedTick (players (enqueue_all sid cmds room1) s) =
              map_option lastProcessedTick (players (enqueue_all sid cmds room2) s))"
  using assms
proof (induction cmds arbitrary: room1 room2)
  case Nil
  then show ?case by (simp add: enqueue_all_def)
next
  case (Cons c cs)
  show ?case
    unfolding enqueue_all_Cons
    by (rule Cons.IH) (simp_all add: onMessage_input_fields Cons.prems)
qed

text \<open>
  C2. The fixed step reads the tick counter, the level, the body, the queue and the
  watermark of every player, the commands that arrive and the physics engine, and
  nothing else: no clock, no random number, and not the replicated fields that the last
  step wrote. Two runs that start from rooms equal in what the step reads, with the same
  command sequence, end in the same room, hence in the same state of every entity; two
  runs from the same room are the special case.
\<close>

theorem fixedTick_deterministic:
  assumes "currentTick room1 = currentTick room2"
    and "ground room1 = ground room2" and "platforms room1 = platforms room2"
    and "\<And>s. map_option player_body (players room1 s) = map_option player_body (players room2 s)"
    and "\<And>s. map_option inputQueue (players room1 s) = map_option inputQueue (players room2 s)"
    and "\<And>s. map_option lastProcessedTick (players room1 s) =
                  map_option lastProcessedTick (players room2 s)"
  shows "step_with_commands M sessionId commands room1 =
         step_with_commands M sessionId commands room2"
proof -
  note same = enqueue_all_reads [OF assms, of sessionId commands]
  show ?thesis
    unfolding step_with_commands_def
    by (rule fixedTick_reads) (use same in simp_all)
qed

theorem fixedTick_deterministic_witness:
  "currentTick example_room = currentTick stale_room \<and>
   ground example_room = ground stale_room \<and>
   platforms example_room = platforms stale_room \<and>
   (\<forall>s. map_option player_body (players example_room s) =
        map_option player_body (players stale_room s)) \<and>
   (\<forall>s. map_option inputQueue (players example_room s) =
        map_option inputQueue (players stale_room s)) \<and>
   (\<forall>s. map_option lastProcessedTick (players example_room s) =
        map_option lastProcessedTick (players stale_room s)) \<and>
   players example_room ''a'' \<noteq> players stale_room ''a'' \<and>
   step_with_commands Matter_void ''a'' [command True False True 9] example_room =
   step_with_commands Matter_void ''a'' [command True False True 9] stale_room"
proof -
  have t: "currentTick example_room = currentTick stale_room"
    and g: "ground example_room = ground stale_room"
    and l: "platforms example_room = platforms stale_room"
    by (simp_all add: stale_room_def)
  have b: "map_option player_body (players example_room s) =
      map_option player_body (players stale_room s)" for s
    by (simp add: stale_room_def example_room_def onJoin_def)
  have q: "map_option inputQueue (players example_room s) =
      map_option inputQueue (players stale_room s)" for s
    by (simp add: stale_room_def example_room_def onJoin_def)
  have w: "map_option lastProcessedTick (players example_room s) =
      map_option lastProcessedTick (players stale_room s)" for s
    by (simp add: stale_room_def example_room_def onJoin_def)
  have d: "players example_room ''a'' \<noteq> players stale_room ''a''"
    by (simp add: stale_room_def example_room_def onJoin_def SPAWN_X_def)
  from fixedTick_deterministic [OF t g l b q w, of Matter_void "''a''" "[command True False True 9]"]
    t g l b q w d
  show ?thesis by blast
qed

section \<open>The grounded checks of the room and of the scene\<close>












end
